theory Spec2Isabelle
  imports Complex_Main "HOL-Library.Log_Nat"
begin

section \<open>JavaScript numbers\<close>

text \<open>
  Every number of the program is an IEEE 754 binary64 value. Integers below \<open>2^53\<close> are
  exact there, so indices, counters and mastery levels are modelled as \<open>int\<close>. A division
  or a product of a fraction is rounded to the nearest binary64 value (ties to even), and
  that rounding is visible in the results, so it is modelled: \<open>fl\<close> rounds a rational to
  a 53-bit significand, with the binary64 minimum exponent for subnormals. Overflow to
  infinity is not part of \<open>fl\<close>: every quotient below has an integer numerator and
  denominator below \<open>2^53\<close>. The sign of zero is not modelled; no comparison of the
  program distinguishes it.
\<close>

definition pow2 :: "int \<Rightarrow> rat" where
  "pow2 k = (if 0 \<le> k then 2 ^ nat k else 1 / 2 ^ nat (- k))"

definition round_half_even :: "rat \<Rightarrow> int" where
  "round_half_even x =
     (let f = \<lfloor>x\<rfloor>; d = x - of_int f
      in if d < 1 / 2 then f else if 1 / 2 < d then f + 1 else if even f then f else f + 1)"

text \<open>\<open>ilog2 x\<close> is the binary exponent of a positive rational: \<open>2^k \<le> x < 2^(k+1)\<close>.\<close>

definition ilog2 :: "rat \<Rightarrow> int" where
  "ilog2 x = (case quotient_of x of (p, q) \<Rightarrow>
     (let k = bitlen p - bitlen q in if pow2 k \<le> x then k else k - 1))"

text \<open>
  The exponent of the last place of the binary64 values around \<open>x\<close>: 52 places below
  the leading bit, and never below the subnormal range.
\<close>

definition fexp :: "rat \<Rightarrow> int" where
  "fexp x = max (ilog2 \<bar>x\<bar>) (- 1022) - 52"

definition fl :: "rat \<Rightarrow> rat" where
  "fl x = (if x = 0 then 0
     else of_int (round_half_even (x / pow2 (fexp x))) * pow2 (fexp x))"

datatype jsnum = NaN | Infinity | NegInfinity | Num rat

text \<open>The operator \<open>/\<close> on two finite numbers.\<close>

definition js_div :: "rat \<Rightarrow> rat \<Rightarrow> jsnum" where
  "js_div a b =
     (if b = 0 then (if a = 0 then NaN else if 0 < a then Infinity else NegInfinity)
      else Num (fl (a / b)))"

text \<open>The operator \<open>*\<close> with a finite right operand.\<close>

fun js_mul :: "jsnum \<Rightarrow> rat \<Rightarrow> jsnum" where
  "js_mul NaN c = NaN"
| "js_mul Infinity c = (if c = 0 then NaN else if 0 < c then Infinity else NegInfinity)"
| "js_mul NegInfinity c = (if c = 0 then NaN else if 0 < c then NegInfinity else Infinity)"
| "js_mul (Num a) c = Num (fl (a * c))"

text \<open>\<open>Math.round\<close>: the nearest integer, a tie going up.\<close>

fun Math_round :: "jsnum \<Rightarrow> jsnum" where
  "Math_round (Num x) = Num (of_int \<lfloor>x + 1 / 2\<rfloor>)"
| "Math_round v = v"

text \<open>The comparison \<open>x >= c\<close> with a finite right operand; false on \<open>NaN\<close>.\<close>

fun js_ge :: "jsnum \<Rightarrow> rat \<Rightarrow> bool" where
  "js_ge (Num x) c = (c \<le> x)"
| "js_ge Infinity c = True"
| "js_ge v c = False"

text \<open>
  The operator \<open>%\<close> on integers: the remainder has the sign of the dividend, and a zero
  divisor gives \<open>NaN\<close>, written \<open>None\<close>.
\<close>

definition js_rem :: "int \<Rightarrow> int \<Rightarrow> int option" where
  "js_rem a b = (if b = 0 then None else Some (sgn a * (\<bar>a\<bar> mod \<bar>b\<bar>)))"


section \<open>Flashcards: navigation and mastery\<close>

datatype difficulty = easy | medium | hard

record Flashcard =
  fc_id :: string
  fc_question :: string
  fc_answer :: string
  fc_difficulty :: difficulty
  mastery_level :: int

text \<open>
  The component state of \<open>Flashcards.tsx\<close>. \<open>currentIndex\<close> is \<open>None\<close> when it is
  \<open>NaN\<close>. \<open>mastery_updates\<close> lists the update requests sent to the store, newest last:
  the id of the card and the mastery level written.
\<close>

record FlashcardsState =
  flashcards :: "Flashcard list"
  currentIndex :: "int option"
  flipped :: bool
  mastery_updates :: "(string \<times> int) list"

definition handleFlip :: "FlashcardsState \<Rightarrow> FlashcardsState" where
  "handleFlip s = s\<lparr>flipped := \<not> flipped s\<rparr>"

definition handleNext :: "FlashcardsState \<Rightarrow> FlashcardsState" where
  "handleNext s =
     s\<lparr>flipped := False,
       currentIndex := (case currentIndex s of
          None \<Rightarrow> None
        | Some prev \<Rightarrow> js_rem (prev + 1) (int (length (flashcards s))))\<rparr>"

definition handlePrevious :: "FlashcardsState \<Rightarrow> FlashcardsState" where
  "handlePrevious s =
     s\<lparr>flipped := False,
       currentIndex := (case currentIndex s of
          None \<Rightarrow> None
        | Some prev \<Rightarrow>
            js_rem (prev - 1 + int (length (flashcards s))) (int (length (flashcards s))))\<rparr>"

definition newMasteryLevel :: "int \<Rightarrow> bool \<Rightarrow> int" where
  "newMasteryLevel m correct = (if correct then min (m + 1) 5 else max (m - 1) 0)"

datatype js_error = TypeError

text \<open>
  \<open>flashcards[currentIndex]\<close> is \<open>undefined\<close> outside the list, and reading
  \<open>card.mastery_level\<close> then throws.
\<close>

definition handleMastery :: "bool \<Rightarrow> FlashcardsState \<Rightarrow> js_error + FlashcardsState" where
  "handleMastery correct s =
     (case currentIndex s of
        None \<Rightarrow> Inl TypeError
      | Some i \<Rightarrow>
          if i < 0 \<or> int (length (flashcards s)) \<le> i then Inl TypeError
          else
            (let card = flashcards s ! nat i;
                 lvl = newMasteryLevel (mastery_level card) correct
             in Inr (handleNext
                  (s\<lparr>mastery_updates := mastery_updates s @ [(fc_id card, lvl)],
                     flashcards := (flashcards s)[nat i := card\<lparr>mastery_level := lvl\<rparr>]\<rparr>))))"

section \<open>Quizzes: the quiz engine\<close>

text \<open>
  Modelled from the spec: the type \<open>QuizQuestion\<close> is imported from \<open>lib/supabase\<close>, which
  is not among the sources; the fields are the ones the component reads
  (\<open>question\<close>, \<open>options\<close>, \<open>correct_answer\<close>, \<open>explanation\<close>).
\<close>

record QuizQuestion =
  qq_question :: string
  options :: "string list"
  correct_answer :: int
  explanation :: "string option"

record Quiz =
  quiz_id :: string
  quiz_title :: string
  questions :: "QuizQuestion list"
  total_questions :: int

text \<open>
  A row handed to \<open>study_sessions.insert\<close>. \<open>score\<close> is \<open>None\<close> when the row has no
  such field.
\<close>

record StudySession =
  user_id :: string
  session_type :: string
  content_id :: string
  score :: "jsnum option"
  completed :: bool
  duration_minutes :: jsnum

text \<open>
  The component state of the quiz view, with what it shares with its environment: the
  signed-in user, the rows sent to the store (newest last), and the number of
  \<open>finishQuiz\<close> calls suspended at their \<open>await\<close>. \<open>sessionStart\<close> has no setter: it
  is \<open>Date.now()\<close> of the first render.
\<close>

record QuizzesState =
  user :: "string option"
  quizzes :: "Quiz list"
  selectedQuiz :: "Quiz option"
  currentQuestion :: int
  selectedAnswer :: "int option"
  showResult :: bool
  answers :: "bool list"
  finished :: bool
  loading :: bool
  sessionStart :: int
  study_sessions :: "StudySession list"
  awaiting :: nat

definition mount :: "string option \<Rightarrow> int \<Rightarrow> QuizzesState" where
  "mount u now =
     \<lparr>user = u, quizzes = [], selectedQuiz = None, currentQuestion = 0,
      selectedAnswer = None, showResult = False, answers = [], finished = False,
      loading = True, sessionStart = now, study_sessions = [], awaiting = 0\<rparr>"

text \<open>\<open>loadQuizzes\<close>, at the arrival of the query's result (\<open>None\<close>: an error).\<close>

definition loadQuizzes :: "Quiz list option \<Rightarrow> QuizzesState \<Rightarrow> QuizzesState" where
  "loadQuizzes result s =
     (case user s of
        None \<Rightarrow> s
      | Some u \<Rightarrow>
          (case result of
             None \<Rightarrow> s\<lparr>loading := False\<rparr>
           | Some d \<Rightarrow> s\<lparr>quizzes := d, loading := False\<rparr>))"

definition startQuiz :: "Quiz \<Rightarrow> QuizzesState \<Rightarrow> QuizzesState" where
  "startQuiz quiz s =
     s\<lparr>selectedQuiz := Some quiz, currentQuestion := 0, selectedAnswer := None,
       showResult := False, answers := [], finished := False\<rparr>"

text \<open>The \<open>onClick\<close> of an option button: \<open>!showResult && setSelectedAnswer(index)\<close>.\<close>

definition clickOption :: "int \<Rightarrow> QuizzesState \<Rightarrow> QuizzesState" where
  "clickOption index s = (if \<not> showResult s then s\<lparr>selectedAnswer := Some index\<rparr> else s)"

text \<open>\<open>xs[i]\<close> of JavaScript: \<open>None\<close> is \<open>undefined\<close>.\<close>

definition js_index :: "'a list \<Rightarrow> int \<Rightarrow> 'a option" where
  "js_index xs i = (if 0 \<le> i \<and> i < int (length xs) then Some (xs ! nat i) else None)"

definition handleAnswer :: "QuizzesState \<Rightarrow> js_error + QuizzesState" where
  "handleAnswer s =
     (case (selectedAnswer s, selectedQuiz s) of
        (Some a, Some q) \<Rightarrow>
          (case js_index (questions q) (currentQuestion s) of
             None \<Rightarrow> Inl TypeError
           | Some qu \<Rightarrow>
               (let isCorrect = (a = correct_answer qu)
                in Inr (s\<lparr>answers := answers s @ [isCorrect], showResult := True\<rparr>)))
      | _ \<Rightarrow> Inr s)"

text \<open>
  The score of \<open>finishQuiz\<close> and of the results view:
  \<open>Math.round((answers.filter(a => a).length / answers.length) * 100)\<close>.
\<close>

definition quiz_score :: "bool list \<Rightarrow> jsnum" where
  "quiz_score outs =
     Math_round (js_mul (js_div (of_nat (length (filter (\<lambda>a. a) outs))) (of_nat (length outs))) 100)"

definition session_duration :: "int \<Rightarrow> int \<Rightarrow> jsnum" where
  "session_duration now start = Math_round (js_div (of_int (now - start)) 60000)"

text \<open>
  \<open>finishQuiz\<close> up to its \<open>await\<close>: the row is built and the insert is sent, at the time
  \<open>now\<close>. \<open>user!.id\<close> throws when nobody is signed in.
\<close>

definition finishQuiz :: "int \<Rightarrow> QuizzesState \<Rightarrow> js_error + QuizzesState" where
  "finishQuiz now s =
     (case selectedQuiz s of
        None \<Rightarrow> Inr s
      | Some q \<Rightarrow>
          (case user s of
             None \<Rightarrow> Inl TypeError
           | Some u \<Rightarrow>
               Inr (s\<lparr>study_sessions := study_sessions s @
                        [\<lparr>user_id = u, session_type = ''quiz'', content_id = quiz_id q,
                          score = Some (quiz_score (answers s)), completed = True,
                          duration_minutes = session_duration now (sessionStart s)\<rparr>],
                      awaiting := Suc (awaiting s)\<rparr>)))"

text \<open>
  The rest of \<open>finishQuiz\<close>, run when the insert has settled, whatever its result:
  \<open>setFinished(true)\<close>.
\<close>

definition finishQuiz_resume :: "QuizzesState \<Rightarrow> QuizzesState" where
  "finishQuiz_resume s = s\<lparr>finished := True, awaiting := awaiting s - 1\<rparr>"

definition handleNext_quiz :: "int \<Rightarrow> QuizzesState \<Rightarrow> js_error + QuizzesState" where
  "handleNext_quiz now s =
     (case selectedQuiz s of
        None \<Rightarrow> Inr s
      | Some q \<Rightarrow>
          if currentQuestion s < int (length (questions q)) - 1
          then Inr (s\<lparr>currentQuestion := currentQuestion s + 1, selectedAnswer := None,
                      showResult := False\<rparr>)
          else finishQuiz now s)"

text \<open>The arrow of the question view, and the second button of the results view.\<close>

definition clickBack :: "QuizzesState \<Rightarrow> QuizzesState" where
  "clickBack s = s\<lparr>selectedQuiz := None\<rparr>"

definition backToQuizzes :: "QuizzesState \<Rightarrow> QuizzesState" where
  "backToQuizzes s = s\<lparr>selectedQuiz := None, finished := False\<rparr>"

definition getScoreMessage :: "jsnum \<Rightarrow> string \<times> string" where
  "getScoreMessage sc =
     (if js_ge sc 90 then (''Outstanding!'', ''text-green-600'')
      else if js_ge sc 70 then (''Great job!'', ''text-blue-600'')
      else if js_ge sc 50 then (''Good effort!'', ''text-yellow-600'')
      else (''Keep studying!'', ''text-orange-600''))"

subsection \<open>What is on the screen\<close>

text \<open>
  The component returns one of five screens, tested in this order; a handler runs only
  from a control of the screen shown.
\<close>

datatype screen = LoadingScreen | NoQuizzesScreen | ResultsScreen | QuestionScreen | ListScreen

definition screen_of :: "QuizzesState \<Rightarrow> screen" where
  "screen_of s =
     (if loading s then LoadingScreen
      else if quizzes s = [] then NoQuizzesScreen
      else if finished s \<and> selectedQuiz s \<noteq> None then ResultsScreen
      else if selectedQuiz s \<noteq> None then QuestionScreen
      else ListScreen)"

text \<open>
  The question screen reads \<open>question.question\<close> of
  \<open>selectedQuiz.questions[currentQuestion]\<close>, and throws when there is no such question.
\<close>

definition render :: "QuizzesState \<Rightarrow> js_error + QuizzesState" where
  "render s =
     (case selectedQuiz s of
        Some q \<Rightarrow>
          if screen_of s = QuestionScreen \<and> js_index (questions q) (currentQuestion s) = None
          then Inl TypeError else Inr s
      | None \<Rightarrow> Inr s)"

text \<open>The score the results screen shows, computed from the state at its render.\<close>

definition shown_score :: "QuizzesState \<Rightarrow> jsnum" where
  "shown_score s = quiz_score (answers s)"

datatype event =
    Loaded "Quiz list option"
  | StartQuiz Quiz
  | ClickOption int
  | SubmitAnswer
  | NextQuestion int
  | Back
  | Retake
  | BackToQuizzes
  | InsertSettled

text \<open>
  One event on one state: \<open>None\<close> when the screen shown has no enabled control for it (or
  no insert is pending), else the handler's result, rendered.
\<close>

definition fire :: "event \<Rightarrow> QuizzesState \<Rightarrow> (js_error + QuizzesState) option" where
  "fire e s =
     (case e of
        Loaded r \<Rightarrow> if loading s then Some (render (loadQuizzes r s)) else None
      | StartQuiz q \<Rightarrow>
          if screen_of s = ListScreen \<and> q \<in> set (quizzes s)
          then Some (render (startQuiz q s)) else None
      | ClickOption i \<Rightarrow>
          (case selectedQuiz s of
             None \<Rightarrow> None
           | Some q \<Rightarrow>
               (case js_index (questions q) (currentQuestion s) of
                  None \<Rightarrow> None
                | Some qu \<Rightarrow>
                    if screen_of s = QuestionScreen \<and> \<not> showResult s
                       \<and> 0 \<le> i \<and> i < int (length (options qu))
                    then Some (render (clickOption i s)) else None))
      | SubmitAnswer \<Rightarrow>
          if screen_of s = QuestionScreen \<and> \<not> showResult s \<and> selectedAnswer s \<noteq> None
          then Some (case handleAnswer s of Inl err \<Rightarrow> Inl err | Inr s' \<Rightarrow> render s')
          else None
      | NextQuestion now \<Rightarrow>
          if screen_of s = QuestionScreen \<and> showResult s
          then Some (case handleNext_quiz now s of Inl err \<Rightarrow> Inl err | Inr s' \<Rightarrow> render s')
          else None
      | Back \<Rightarrow> if screen_of s = QuestionScreen then Some (render (clickBack s)) else None
      | Retake \<Rightarrow>
          (case selectedQuiz s of
             None \<Rightarrow> None
           | Some q \<Rightarrow>
               if screen_of s = ResultsScreen then Some (render (startQuiz q s)) else None)
      | BackToQuizzes \<Rightarrow>
          if screen_of s = ResultsScreen then Some (render (backToQuizzes s)) else None
      | InsertSettled \<Rightarrow>
          if 0 < awaiting s then Some (render (finishQuiz_resume s)) else None)"

text \<open>
  A sequence of events, oldest first; it stops at the first throw. (A handler throws
  before it sets any state, so the states met up to there are all there are.)
\<close>

fun run :: "event list \<Rightarrow> QuizzesState \<Rightarrow> (js_error + QuizzesState) option" where
  "run [] s = Some (Inr s)"
| "run (e # es) s =
     (case fire e s of
        None \<Rightarrow> None
      | Some (Inl err) \<Rightarrow> Some (Inl err)
      | Some (Inr s') \<Rightarrow> run es s')"

text \<open>
  The same with every insert settling before the next event: what the component does
  when nothing happens between the last click on Finish and the store's answer.
\<close>

definition settle :: "QuizzesState \<Rightarrow> QuizzesState" where
  "settle s = (if 0 < awaiting s then finishQuiz_resume s else s)"

fun run_settled :: "event list \<Rightarrow> QuizzesState \<Rightarrow> (js_error + QuizzesState) option" where
  "run_settled [] s = Some (Inr s)"
| "run_settled (e # es) s =
     (case fire e s of
        None \<Rightarrow> None
      | Some (Inl err) \<Rightarrow> Some (Inl err)
      | Some (Inr s') \<Rightarrow> run_settled es (settle s'))"


text \<open>
  What holds of every state met when inserts settle at once: no insert is pending, and
  the answers keep step with the question shown. On the results screen there is one
  answer for each question of the quiz.
\<close>

definition quiz_inv :: "QuizzesState \<Rightarrow> bool" where
  "quiz_inv s =
     (awaiting s = 0 \<and>
      (case selectedQuiz s of
         None \<Rightarrow> True
       | Some q \<Rightarrow>
           if finished s
           then answers s \<noteq> [] \<and> length (answers s) = length (questions q)
           else 0 \<le> currentQuestion s \<and> currentQuestion s < int (length (questions q)) \<and>
                int (length (answers s)) = currentQuestion s + (if showResult s then 1 else 0)))"


section \<open>Dashboard: the average score\<close>

text \<open>
  A row of \<open>study_sessions\<close> as the dashboard selects it: \<open>score\<close> (\<open>None\<close> is
  \<open>null\<close>) and \<open>completed\<close>. Scores are integers.
\<close>

record SessionRow =
  row_score :: "int option"
  row_completed :: bool

definition completedSessions :: "SessionRow list option \<Rightarrow> SessionRow list" where
  "completedSessions d =
     (case d of
        None \<Rightarrow> []
      | Some rows \<Rightarrow> filter (\<lambda>s. row_completed s \<and> row_score s \<noteq> None) rows)"

text \<open>\<open>s.score || 0\<close>.\<close>

definition score_or_0 :: "SessionRow \<Rightarrow> int" where
  "score_or_0 s = (case row_score s of None \<Rightarrow> 0 | Some v \<Rightarrow> if v = 0 then 0 else v)"

text \<open>The \<open>reduce\<close>: each addition is a binary64 addition.\<close>

definition sum_scores :: "SessionRow list \<Rightarrow> rat" where
  "sum_scores rows = foldl (\<lambda>acc s. fl (acc + of_int (score_or_0 s))) 0 rows"

definition avgScore :: "SessionRow list option \<Rightarrow> jsnum" where
  "avgScore d =
     (let cs = completedSessions d
      in if 0 < length cs then js_div (sum_scores cs) (of_nat (length cs)) else Num 0)"

definition averageScore :: "SessionRow list option \<Rightarrow> jsnum" where
  "averageScore d = Math_round (avgScore d)"


section \<open>Strings, JSON values and thrown errors\<close>

text \<open>
  A string of the program is written as the bytes of its UTF-8 encoding, so a character
  outside ASCII takes two or three bytes. \<open>toLowerCase\<close> changes the ASCII capitals only:
  it is used for one thing, to compare a file extension with \<open>pdf\<close>, \<open>txt\<close>, \<open>md\<close>,
  \<open>doc\<close> and \<open>docx\<close>, and no character outside ASCII has one of their letters as its
  lower case.
\<close>

definition toLowerCase :: "string \<Rightarrow> string" where
  "toLowerCase s =
     map (\<lambda>c. let n = (of_char c :: nat) in if 65 \<le> n \<and> n \<le> 90 then char_of (n + 32) else c) s"

text \<open>
  What \<open>String.prototype.trim\<close> strips: the white space and the line terminators of
  ECMAScript, each as its UTF-8 bytes. They are tab, line feed, vertical tab, form feed,
  carriage return and space; the no-break space \<open>U+00A0\<close>; the other space separators
  of Unicode, \<open>U+1680\<close>, \<open>U+2000\<close> to \<open>U+200A\<close>, \<open>U+202F\<close>, \<open>U+205F\<close> and
  \<open>U+3000\<close>; the line and paragraph separators \<open>U+2028\<close> and \<open>U+2029\<close>; and the
  byte order mark \<open>U+FEFF\<close>.
\<close>

definition white_space :: "string list" where
  "white_space =
     [[CHR 0x09], [CHR 0x0A], [CHR 0x0B], [CHR 0x0C], [CHR 0x0D], [CHR 0x20],
      [CHR 0xC2, CHR 0xA0],
      [CHR 0xE1, CHR 0x9A, CHR 0x80],
      [CHR 0xE2, CHR 0x80, CHR 0x80], [CHR 0xE2, CHR 0x80, CHR 0x81],
      [CHR 0xE2, CHR 0x80, CHR 0x82], [CHR 0xE2, CHR 0x80, CHR 0x83],
      [CHR 0xE2, CHR 0x80, CHR 0x84], [CHR 0xE2, CHR 0x80, CHR 0x85],
      [CHR 0xE2, CHR 0x80, CHR 0x86], [CHR 0xE2, CHR 0x80, CHR 0x87],
      [CHR 0xE2, CHR 0x80, CHR 0x88], [CHR 0xE2, CHR 0x80, CHR 0x89],
      [CHR 0xE2, CHR 0x80, CHR 0x8A],
      [CHR 0xE2, CHR 0x80, CHR 0xA8], [CHR 0xE2, CHR 0x80, CHR 0xA9],
      [CHR 0xE2, CHR 0x80, CHR 0xAF],
      [CHR 0xE2, CHR 0x81, CHR 0x9F],
      [CHR 0xE3, CHR 0x80, CHR 0x80],
      [CHR 0xEF, CHR 0xBB, CHR 0xBF]]"

text \<open>The number of bytes of the one of \<open>ws\<close> that \<open>s\<close> starts with, or 0.\<close>

definition ws_len :: "string list \<Rightarrow> string \<Rightarrow> nat" where
  "ws_len ws s =
     (case find (\<lambda>w. w \<noteq> [] \<and> take (length w) s = w) ws of
        None \<Rightarrow> 0
      | Some w \<Rightarrow> length w)"

function strip :: "string list \<Rightarrow> string \<Rightarrow> string" where
  "strip ws s = (if ws_len ws s = 0 then s else strip ws (drop (ws_len ws s) s))"
  by pat_completeness auto
termination
proof (relation "measure (\<lambda>(ws, s). length s)")
  show "wf (measure (\<lambda>(ws, s). length s))" by simp
next
  fix ws :: "string list" and s :: string
  assume n: "ws_len ws s \<noteq> 0"
  then obtain w where "find (\<lambda>w. w \<noteq> [] \<and> take (length w) s = w) ws = Some w"
    by (auto simp add: ws_len_def split: option.splits)
  then have "w \<noteq> [] \<and> take (length w) s = w" by (auto simp add: find_Some_iff)
  then have "s \<noteq> []" by auto
  with n show "((ws, drop (ws_len ws s) s), (ws, s)) \<in> measure (\<lambda>(ws, s). length s)"
    by simp
qed

text \<open>
  \<open>trim\<close>: white space is stripped at the front, and at the end by reading the bytes
  backwards. (A character of well-formed UTF-8 that ends a string is found from its last
  byte back, so reading backwards finds the same characters.)
\<close>

definition trim :: "string \<Rightarrow> string" where
  "trim s = rev (strip (map rev white_space) (rev (strip white_space s)))"

text \<open>\<open>name.split('.').pop()\<close>: what follows the last dot, or the whole name.\<close>

definition after_last_dot :: "string \<Rightarrow> string" where
  "after_last_dot s = rev (takeWhile (\<lambda>c. c \<noteq> CHR ''.'') (rev s))"

text \<open>
  \<open>name.replace(/\.[^/.]+$/, '')\<close>: a last dot followed by at least one character, none
  of them a slash, is cut off with what follows it.
\<close>

definition strip_extension :: "string \<Rightarrow> string" where
  "strip_extension s =
     (let ext = after_last_dot s
      in if CHR ''.'' \<in> set s \<and> ext \<noteq> [] \<and> CHR ''/'' \<notin> set ext
         then take (length s - length ext - 1) s else s)"

function show_nat :: "nat \<Rightarrow> string" where
  "show_nat n =
     (if n < 10 then [char_of (48 + n)] else show_nat (n div 10) @ [char_of (48 + n mod 10)])"
  by pat_completeness auto
termination
  by (relation "measure id") auto

fun join :: "string \<Rightarrow> string list \<Rightarrow> string" where
  "join sep [] = []"
| "join sep [x] = x"
| "join sep (x # y # ys) = x @ sep @ join sep (y # ys)"

text \<open>
  A parsed JSON value. A number is given by its value and by the text that \<open>String\<close>
  makes of it, which is the runtime's. A property that is absent reads as \<open>undefined\<close>,
  written \<open>None\<close>.
\<close>

datatype json =
    JNull
  | JBool bool
  | JNum rat string
  | JStr string
  | JArr "json list"
  | JObj "(string \<times> json) list"

datatype thrown = Error string

fun message :: "thrown \<Rightarrow> string" where
  "message (Error m) = m"

text \<open>
  \<open>v.k\<close> for the property names read below, none of which an array or a primitive
  value has; on \<open>null\<close> the read throws a \<open>TypeError\<close> (the text is the engine's). In an
  object parsed from JSON the last of several equal keys counts.
\<close>

definition get_prop :: "json \<Rightarrow> string \<Rightarrow> thrown + json option" where
  "get_prop v k =
     (case v of
        JNull \<Rightarrow>
          Inl (Error (''Cannot read properties of null (reading '' @ [CHR 0x27] @ k @ [CHR 0x27] @ '')''))
      | JObj kvs \<Rightarrow> Inr (map_of (rev kvs) k)
      | _ \<Rightarrow> Inr None)"

fun truthy :: "json option \<Rightarrow> bool" where
  "truthy None = False"
| "truthy (Some JNull) = False"
| "truthy (Some (JBool b)) = b"
| "truthy (Some (JNum n t)) = (n \<noteq> 0)"
| "truthy (Some (JStr s)) = (s \<noteq> [])"
| "truthy (Some (JArr xs)) = True"
| "truthy (Some (JObj kvs)) = True"

text \<open>\<open>String(v)\<close>, which \<open>new Error(v)\<close> and a template string apply.\<close>

fun js_String :: "json \<Rightarrow> string" where
  "js_String JNull = ''null''"
| "js_String (JBool b) = (if b then ''true'' else ''false'')"
| "js_String (JNum n t) = t"
| "js_String (JStr s) = s"
| "js_String (JArr xs) =
     join '','' (map (\<lambda>x. case x of JNull \<Rightarrow> [] | _ \<Rightarrow> js_String x) xs)"
| "js_String (JObj kvs) = ''[object Object]''"

text \<open>
  What \<open>fetch\<close> and \<open>response.json()\<close> give: a rejected request, or a response whose
  body parses to a JSON value or does not (each failure with the runtime's message).
\<close>

record HttpResponse =
  ok :: bool
  statusText :: string
  json_body :: "string + json"

datatype fetch_result = Rejected string | Response HttpResponse


section \<open>Documents: parsing, upload and flashcard generation\<close>

text \<open>
  A chosen file: its name, what \<open>file.text()\<close> gives, and what the PDF library gives for
  it: the text items of each page, or a rejection. An item without \<open>str\<close> is \<open>''''\<close>.
\<close>

record UploadFile =
  file_name :: string
  file_text :: "thrown + string"
  pdf_pages :: "thrown + string list list"

definition pageText :: "string list \<Rightarrow> string" where
  "pageText items = join '' '' (filter (\<lambda>t. t \<noteq> []) (map trim items))"

definition parsePDF :: "UploadFile \<Rightarrow> thrown + string" where
  "parsePDF file =
     (case (case pdf_pages file of
              Inl e \<Rightarrow> Inl e
            | Inr pages \<Rightarrow>
                (let fullText = concat (map (\<lambda>p. pageText p @ [CHR 0x0A]) pages)
                 in if trim fullText = [] then Inl (Error ''PDF contains no readable text'')
                    else Inr (trim fullText))) of
        Inl e \<Rightarrow> Inl (Error (''Failed to parse PDF: '' @ message e))
      | Inr t \<Rightarrow> Inr t)"

definition parseTextFile :: "UploadFile \<Rightarrow> thrown + string" where
  "parseTextFile file = file_text file"

definition parseFile :: "UploadFile \<Rightarrow> thrown + string \<times> string" where
  "parseFile file =
     (let extension = toLowerCase (after_last_dot (file_name file))
      in if extension = ''pdf'' then
           (case parsePDF file of Inl e \<Rightarrow> Inl e | Inr content \<Rightarrow> Inr (content, ''pdf''))
         else if extension \<in> set [''txt'', ''md'', ''doc'', ''docx''] then
           (case (case parseTextFile file of
                    Inl e \<Rightarrow> Inl e
                  | Inr content \<Rightarrow>
                      if content = [] \<or> length (trim content) = 0
                      then Inl (Error ''File content is empty'')
                      else Inr (content, extension)) of
              Inl e \<Rightarrow>
                Inl (Error (''Failed to parse '' @ extension @ '' file: '' @ message e))
            | Inr r \<Rightarrow> Inr r)
         else Inl (Error (''Unsupported file type: .'' @ extension @
                ''. Supported types: PDF, TXT, MD, DOC, DOCX'')))"

text \<open>A row of \<open>documents\<close>, and what \<open>insert\<close> is given for one.\<close>

record Document =
  doc_id :: string
  doc_title :: string
  doc_content :: string
  file_type :: string
  created_at :: string

record DocumentInsert =
  ins_user_id :: string
  ins_title :: string
  ins_content :: string
  ins_file_type :: string

text \<open>A row handed to \<open>flashcards.insert\<close>; a field the response did not have is
  \<open>None\<close>.\<close>

record FlashcardInsert =
  fi_user_id :: string
  fi_document_id :: string
  fi_question :: "json option"
  fi_answer :: "json option"
  fi_difficulty :: "json option"

text \<open>
  The component state of \<open>Documents.tsx\<close> with its environment: the signed-in user,
  whether the store client and the two environment variables are there, the rows the
  store has accepted into \<open>documents\<close>, the rows sent to \<open>flashcards\<close>, and the alerts
  shown, oldest first.
\<close>

record DocumentsState =
  d_user :: "string option"
  supabase_configured :: bool
  env_configured :: bool
  documents :: "Document list"
  uploading :: bool
  generating :: "(string \<times> string) option"
  title :: string
  content :: string
  documents_table :: "DocumentInsert list"
  flashcards_table :: "FlashcardInsert list"
  alerts :: "string list"

definition alert :: "string \<Rightarrow> DocumentsState \<Rightarrow> DocumentsState" where
  "alert m s = s\<lparr>alerts := alerts s @ [m]\<rparr>"

text \<open>\<open>handleFileUpload\<close>, with a file chosen or none: of the parser's result only
  \<open>content\<close> is taken.\<close>

definition handleFileUpload :: "UploadFile option \<Rightarrow> DocumentsState \<Rightarrow> DocumentsState" where
  "handleFileUpload f s =
     (case f of
        None \<Rightarrow> s
      | Some file \<Rightarrow>
          (case parseFile file of
             Inr (c, t) \<Rightarrow>
               s\<lparr>title := strip_extension (file_name file), content := c, uploading := False\<rparr>
           | Inl e \<Rightarrow> (alert (message e) s)\<lparr>uploading := False\<rparr>))"

text \<open>The form's two fields, typed by hand.\<close>

definition setTitle :: "string \<Rightarrow> DocumentsState \<Rightarrow> DocumentsState" where
  "setTitle t s = s\<lparr>title := t\<rparr>"

definition setContent :: "string \<Rightarrow> DocumentsState \<Rightarrow> DocumentsState" where
  "setContent c s = s\<lparr>content := c\<rparr>"

text \<open>
  What the store answers to the insert of a document: an error with its message, or the
  id and the creation time it gave the row.
\<close>

datatype insert_reply = InsertError string | Inserted string string

definition handleSubmit :: "insert_reply \<Rightarrow> DocumentsState \<Rightarrow> DocumentsState" where
  "handleSubmit reply s =
     (case d_user s of
        None \<Rightarrow> alert ''You must be logged in to upload documents'' s
      | Some uid \<Rightarrow>
          if title s = [] \<or> content s = [] then
            alert ''Please provide both a title and content for your document'' s
          else
            (let row = \<lparr>ins_user_id = uid, ins_title = title s, ins_content = content s,
                        ins_file_type = ''text''\<rparr>;
                 fail = (\<lambda>e t. (alert (''Error uploading document: '' @ message e @
                                  ''. Please try again.'') t)\<lparr>uploading := False\<rparr>)
             in if \<not> supabase_configured s then
                  fail (Error ''Supabase is not configured. Please check your environment variables.'') s
                else
                  (case reply of
                     InsertError m \<Rightarrow>
                       fail (Error (if m = [] then ''Failed to upload document to database'' else m)) s
                   | Inserted new_id time \<Rightarrow>
                       (alert ''Document uploaded successfully!''
                          (s\<lparr>documents_table := documents_table s @ [row],
                             documents :=
                               \<lparr>doc_id = new_id, doc_title = ins_title row,
                                doc_content = ins_content row, file_type = ins_file_type row,
                                created_at = time\<rparr> # documents s,
                             title := [], content := []\<rparr>))\<lparr>uploading := False\<rparr>)))"

subsection \<open>Flashcard generation\<close>

text \<open>The callback of \<open>data.flashcards.map\<close>, for one element.\<close>

definition flashcardToInsert ::
    "string option \<Rightarrow> Document \<Rightarrow> json \<Rightarrow> thrown + FlashcardInsert" where
  "flashcardToInsert u doc fc =
     (case u of
        None \<Rightarrow>
          Inl (Error (''Cannot read properties of null (reading '' @ [CHR 0x27] @ ''id'' @ [CHR 0x27] @ '')''))
      | Some uid \<Rightarrow>
          (case get_prop fc ''question'' of
             Inl e \<Rightarrow> Inl e
           | Inr q \<Rightarrow>
               (case (get_prop fc ''answer'', get_prop fc ''difficulty'') of
                  (Inr a, Inr d) \<Rightarrow>
                    Inr \<lparr>fi_user_id = uid, fi_document_id = doc_id doc, fi_question = q,
                         fi_answer = a, fi_difficulty = d\<rparr>
                | (Inl e, _) \<Rightarrow> Inl e
                | (_, Inl e) \<Rightarrow> Inl e)))"

fun map_throwing :: "('a \<Rightarrow> thrown + 'b) \<Rightarrow> 'a list \<Rightarrow> thrown + 'b list" where
  "map_throwing f [] = Inr []"
| "map_throwing f (x # xs) =
     (case f x of
        Inl e \<Rightarrow> Inl e
      | Inr y \<Rightarrow> (case map_throwing f xs of Inl e \<Rightarrow> Inl e | Inr ys \<Rightarrow> Inr (y # ys)))"

text \<open>
  The body of the \<open>try\<close> of \<open>generateFlashcards\<close>, given what \<open>fetch\<close> returned: the
  thrown error, or the rows to insert.
\<close>

definition flashcardsToInsert ::
    "DocumentsState \<Rightarrow> Document \<Rightarrow> fetch_result \<Rightarrow> thrown + FlashcardInsert list" where
  "flashcardsToInsert s doc res =
     (if \<not> env_configured s then Inl (Error ''Supabase configuration is missing'')
      else
        (case res of
           Rejected m \<Rightarrow> Inl (Error m)
         | Response response \<Rightarrow>
             if \<not> ok response then Inl (Error (''API error: '' @ statusText response))
             else
               (case json_body response of
                  Inl m \<Rightarrow> Inl (Error m)
                | Inr data \<Rightarrow>
                    (case get_prop data ''error'' of
                       Inl e \<Rightarrow> Inl e
                     | Inr err \<Rightarrow>
                         if truthy err then
                           Inl (Error (case err of Some v \<Rightarrow> js_String v | None \<Rightarrow> []))
                         else
                           (case get_prop data ''flashcards'' of
                              Inl e \<Rightarrow> Inl e
                            | Inr (Some (JArr fcs)) \<Rightarrow>
                                if length fcs = 0 then Inl (Error ''No flashcards generated'')
                                else
                                  (case map_throwing (flashcardToInsert (d_user s) doc) fcs of
                                     Inl e \<Rightarrow> Inl e
                                   | Inr rows \<Rightarrow>
                                       if \<not> supabase_configured s
                                       then Inl (Error ''Supabase is not configured'')
                                       else Inr rows)
                            | Inr _ \<Rightarrow> Inl (Error ''Invalid response format''))))))"

definition generateFlashcards ::
    "Document \<Rightarrow> fetch_result \<Rightarrow> DocumentsState \<Rightarrow> DocumentsState" where
  "generateFlashcards doc res s =
     (case flashcardsToInsert s doc res of
        Inl e \<Rightarrow> (alert (''Error generating flashcards: '' @ message e) s)\<lparr>generating := None\<rparr>
      | Inr rows \<Rightarrow>
          (alert (''Generated '' @ show_nat (length rows) @
                  '' flashcards! Go to Flashcards to study them.'')
             (s\<lparr>flashcards_table := flashcards_table s @ rows\<rparr>))\<lparr>generating := None\<rparr>)"

text \<open>
  The \<open>flashcards\<close> field of a response; a body that is no JSON, or is \<open>null\<close>, has
  none.
\<close>

definition flashcards_field :: "HttpResponse \<Rightarrow> json option" where
  "flashcards_field response =
     (case json_body response of
        Inl m \<Rightarrow> None
      | Inr data \<Rightarrow> (case get_prop data ''flashcards'' of Inl e \<Rightarrow> None | Inr v \<Rightarrow> v))"

text \<open>The field is missing, is not an array, or is an empty array.\<close>

definition no_flashcards :: "HttpResponse \<Rightarrow> bool" where
  "no_flashcards response =
     (case flashcards_field response of Some (JArr fcs) \<Rightarrow> fcs = [] | _ \<Rightarrow> True)"

text \<open>
  The responses that reach the two checks of the \<open>flashcards\<close> field: status OK, a JSON
  body other than \<open>null\<close>, no truthy \<open>error\<close> in it.
\<close>

definition reaches_format_checks :: "HttpResponse \<Rightarrow> bool" where
  "reaches_format_checks response =
     (ok response \<and>
      (case json_body response of
         Inl m \<Rightarrow> False
       | Inr data \<Rightarrow>
           (case get_prop data ''error'' of Inl e \<Rightarrow> False | Inr err \<Rightarrow> \<not> truthy err)))"


section \<open>Chat: one turn\<close>

record ChatDocument =
  cd_id :: string
  cd_title :: string
  cd_content :: string

text \<open>A message of the transcript. The content is a string, but for a reply copied from
  the response as it is, which can be any JSON value.\<close>

record Message =
  role :: string
  msg_content :: json

text \<open>
  The component state of \<open>Chat.tsx\<close> with its environment: the signed-in user, whether
  the store client and the two environment variables are there, and the rows sent to
  \<open>study_sessions\<close>, newest last.
\<close>

record ChatState =
  c_user :: "string option"
  c_supabase :: bool
  c_env :: bool
  selectedDoc :: "ChatDocument option"
  messages :: "Message list"
  input :: string
  c_loading :: bool
  chat_sessions :: "StudySession list"

definition say :: "json \<Rightarrow> ChatState \<Rightarrow> ChatState" where
  "say c s = s\<lparr>messages := messages s @ [\<lparr>role = ''assistant'', msg_content = c\<rparr>]\<rparr>"

definition apology :: "string \<Rightarrow> json" where
  "apology m = JStr (''Sorry, I encountered an error: '' @ m @ ''. Please try again.'')"

text \<open>
  \<open>handleSubmit\<close> of the chat, given what \<open>fetch\<close> returned. Every path after the
  guard ends in \<open>setLoading(false)\<close>.
\<close>

definition handleSubmit_chat :: "fetch_result \<Rightarrow> ChatState \<Rightarrow> ChatState" where
  "handleSubmit_chat res s =
     (case (selectedDoc s, c_user s) of
        (Some doc, Some uid) \<Rightarrow>
          if trim (input s) = [] \<or> c_loading s \<or> \<not> c_supabase s then s
          else
            (let s1 = s\<lparr>messages := messages s @
                         [\<lparr>role = ''user'', msg_content = JStr (trim (input s))\<rparr>],
                       input := [], c_loading := True\<rparr>;
                 s2 =
                   (if \<not> c_env s1 then
                      say (JStr ''Configuration error: Supabase URL or Key is missing.'') s1
                    else
                      (case res of
                         Rejected m \<Rightarrow> say (apology m) s1
                       | Response response \<Rightarrow>
                           if \<not> ok response then
                             say (JStr (''Service error: '' @ statusText response)) s1
                           else
                             (case json_body response of
                                Inl m \<Rightarrow> say (apology m) s1
                              | Inr data \<Rightarrow>
                                  (case get_prop data ''error'' of
                                     Inl e \<Rightarrow> say (apology (message e)) s1
                                   | Inr err \<Rightarrow>
                                       if truthy err then
                                         say (case err of Some v \<Rightarrow> v | None \<Rightarrow> JNull) s1
                                       else
                                         (case get_prop data ''response'' of
                                            Inl e \<Rightarrow> say (apology (message e)) s1
                                          | Inr r \<Rightarrow>
                                              (say (case r of
                                                      Some v \<Rightarrow>
                                                        if truthy r then v
                                                        else JStr ''No response from AI''
                                                    | None \<Rightarrow> JStr ''No response from AI'') s1)
                                              \<lparr>chat_sessions := chat_sessions s1 @
                                                 [\<lparr>user_id = uid, session_type = ''chat'',
                                                   content_id = cd_id doc, score = None,
                                                   completed = True,
                                                   duration_minutes = Num 1\<rparr>]\<rparr>)))))
             in s2\<lparr>c_loading := False\<rparr>)
      | _ \<Rightarrow> s)"

text \<open>
  A turn that the service answers: the guard of \<open>handleSubmit\<close> passes, the environment
  is configured, and the response is OK with a JSON body other than \<open>null\<close> that has no
  truthy \<open>error\<close>.
\<close>

definition answered :: "fetch_result \<Rightarrow> ChatState \<Rightarrow> bool" where
  "answered res s =
     (selectedDoc s \<noteq> None \<and> c_user s \<noteq> None \<and> trim (input s) \<noteq> [] \<and> \<not> c_loading s \<and>
      c_supabase s \<and> c_env s \<and>
      (case res of
         Rejected m \<Rightarrow> False
       | Response response \<Rightarrow>
           ok response \<and>
           (case json_body response of
              Inl m \<Rightarrow> False
            | Inr data \<Rightarrow>
                (case get_prop data ''error'' of Inl e \<Rightarrow> False | Inr err \<Rightarrow> \<not> truthy err))))"


section \<open>The specification's formulas\<close>

text \<open>The contract of the mastery model, in the words of the specification.\<close>

definition spec_clamp :: "int \<Rightarrow> int \<Rightarrow> int \<Rightarrow> int" where
  "spec_clamp x lo hi = max lo (min x hi)"

definition spec_applyReview :: "int \<Rightarrow> bool \<Rightarrow> int" where
  "spec_applyReview m correct = spec_clamp (m + (if correct then 1 else - 1)) 0 5"


text \<open>
  The score of a finished quiz in the words of the specification:
  \<open>round(100 * count(outcomes where true) / len(outcomes))\<close>, in exact arithmetic, a
  tie going up as in \<open>Math.round\<close>.
\<close>

definition spec_round :: "rat \<Rightarrow> int" where
  "spec_round x = \<lfloor>x + 1 / 2\<rfloor>"

definition spec_score :: "bool list \<Rightarrow> int" where
  "spec_score outs =
     spec_round (100 * of_nat (length (filter (\<lambda>a. a) outs)) / of_nat (length outs))"

text \<open>The sessions that count: completed, with a score that is not null.\<close>

definition spec_qualifying :: "SessionRow list \<Rightarrow> SessionRow list" where
  "spec_qualifying rows = filter (\<lambda>s. row_completed s \<and> row_score s \<noteq> None) rows"

text \<open>The arithmetic mean of their scores.\<close>

definition spec_mean :: "SessionRow list \<Rightarrow> rat" where
  "spec_mean rows =
     of_int (sum_list (map (\<lambda>s. case row_score s of None \<Rightarrow> 0 | Some v \<Rightarrow> v)
        (spec_qualifying rows)))
     / of_nat (length (spec_qualifying rows))"


section \<open>Example inputs\<close>

definition card5 :: Flashcard where
  "card5 = \<lparr>fc_id = ''c1'', fc_question = ''q'', fc_answer = ''a'', fc_difficulty = easy,
            mastery_level = 5\<rparr>"

definition deck1 :: FlashcardsState where
  "deck1 = \<lparr>flashcards = [card5], currentIndex = Some 0, flipped = True,
            mastery_updates = []\<rparr>"


text \<open>A deck of three cards, the first one shown, flipped.\<close>

definition deck3 :: FlashcardsState where
  "deck3 =
     \<lparr>flashcards =
        [card5, card5\<lparr>fc_id := ''c2'', mastery_level := 0\<rparr>,
         card5\<lparr>fc_id := ''c3'', mastery_level := 2\<rparr>],
      currentIndex = Some 0, flipped = True, mastery_updates = []\<rparr>"

definition question1 :: QuizQuestion where
  "question1 = \<lparr>qq_question = ''2 + 2?'', options = [''4'', ''5''], correct_answer = 0,
                explanation = None\<rparr>"

definition quiz1 :: Quiz where
  "quiz1 = \<lparr>quiz_id = ''quiz-1'', quiz_title = ''Sums'', questions = [question1],
            total_questions = 1\<rparr>"

text \<open>
  A quiz is finished; while its insert is pending the learner goes back to the list and
  starts the quiz again; then the insert settles.
\<close>

definition race_trace :: "event list" where
  "race_trace =
     [Loaded (Some [quiz1]), StartQuiz quiz1, ClickOption 0, SubmitAnswer,
      NextQuestion 60000, Back, StartQuiz quiz1, InsertSettled]"

text \<open>
  A quiz is taken from the mount at time 0 to minute 10, retaken at once and finished
  two minutes later.
\<close>

definition retake_trace :: "event list" where
  "retake_trace =
     [Loaded (Some [quiz1]), StartQuiz quiz1, ClickOption 0, SubmitAnswer,
      NextQuestion 600000, InsertSettled, Retake, ClickOption 1, SubmitAnswer,
      NextQuestion 720000, InsertSettled]"

text \<open>23 right answers out of 40.\<close>

definition outcomes_23_of_40 :: "bool list" where
  "outcomes_23_of_40 = replicate 23 True @ replicate 17 False"


text \<open>The state after the first attempt of \<open>retake_trace\<close>: the results screen.\<close>

definition first_attempt_done :: QuizzesState where
  "first_attempt_done =
     (case run (take 6 retake_trace) (mount (Some ''u1'') 0) of
        Some (Inr s) \<Rightarrow> s
      | _ \<Rightarrow> mount None 0)"

text \<open>
  Four completed sessions with scores 75, 58, 100 and 33, a completed one with no score
  and one that is not completed: the mean of the four is 66.5.
\<close>

definition sessions_example :: "SessionRow list" where
  "sessions_example =
     [\<lparr>row_score = Some 75, row_completed = True\<rparr>,
      \<lparr>row_score = Some 58, row_completed = True\<rparr>,
      \<lparr>row_score = None, row_completed = True\<rparr>,
      \<lparr>row_score = Some 100, row_completed = False\<rparr>,
      \<lparr>row_score = Some 100, row_completed = True\<rparr>,
      \<lparr>row_score = Some 33, row_completed = True\<rparr>]"

text \<open>A text file that holds one no-break space, and the same typed into the chat.\<close>

definition blank_file :: UploadFile where
  "blank_file =
     \<lparr>file_name = ''a.txt'', file_text = Inr [CHR 0xC2, CHR 0xA0],
      pdf_pages = Inl (Error ''Invalid PDF structure'')\<rparr>"

text \<open>A signed-in, configured documents view, a stored document, and three responses of
  the flashcard service: an error payload, an empty list, and one card.\<close>

definition docs_state :: DocumentsState where
  "docs_state =
     \<lparr>d_user = Some ''u1'', supabase_configured = True, env_configured = True,
      documents = [], uploading = False, generating = None, title = [], content = [],
      documents_table = [], flashcards_table = [], alerts = []\<rparr>"

definition doc1 :: Document where
  "doc1 = \<lparr>doc_id = ''d1'', doc_title = ''Notes'', doc_content = ''Cells divide.'',
           file_type = ''text'', created_at = ''2024-01-01''\<rparr>"

definition error_response :: HttpResponse where
  "error_response =
     \<lparr>ok = True, statusText = ''OK'',
      json_body = Inr (JObj [(''error'', JStr ''Rate limit exceeded'')])\<rparr>"

definition empty_response :: HttpResponse where
  "empty_response =
     \<lparr>ok = True, statusText = ''OK'', json_body = Inr (JObj [(''flashcards'', JArr [])])\<rparr>"

definition notes_pdf :: UploadFile where
  "notes_pdf =
     \<lparr>file_name = ''Notes.PDF'', file_text = Inr ''%PDF-1.7'',
      pdf_pages = Inr [[''Cells'', '' divide. '']]\<rparr>"

text \<open>A chat with a document selected and a question typed, and an answer.\<close>

definition chat_state :: ChatState where
  "chat_state =
     \<lparr>c_user = Some ''u1'', c_supabase = True, c_env = True,
      selectedDoc = Some \<lparr>cd_id = ''d1'', cd_title = ''Notes'', cd_content = ''Cells divide.''\<rparr>,
      messages = [], input = '' What divides? '', c_loading = False, chat_sessions = []\<rparr>"

definition answer_response :: HttpResponse where
  "answer_response =
     \<lparr>ok = True, statusText = ''OK'', json_body = Inr (JObj [(''response'', JStr ''Cells.'')])\<rparr>"

section \<open>Rounding to binary64: order and exactness\<close>

lemma pow2_powi: "pow2 k = 2 powi k"
  by (simp add: pow2_def power_int_def inverse_eq_divide power_one_over)

lemma pow2_pos [simp]: "0 < pow2 k"
  by (simp add: pow2_def)

lemma pow2_nonneg [simp]: "0 \<le> pow2 k"
  by (simp add: pow2_def)

lemma pow2_neq_0 [simp]: "pow2 k \<noteq> 0"
  by (simp add: pow2_def)

lemma pow2_numeral [simp]: "pow2 (numeral n) = 2 ^ numeral n"
  by (simp add: pow2_def)

lemma pow2_add: "pow2 (a + b) = pow2 a * pow2 b"
  by (simp add: pow2_powi power_int_add)

lemma pow2_nat [simp]: "pow2 (int n) = 2 ^ n"
  by (simp add: pow2_def)

lemma pow2_strict_mono: "a < b \<Longrightarrow> pow2 a < pow2 b"
  by (simp add: pow2_powi power_int_strict_increasing)

lemma pow2_less_iff [simp]: "pow2 a < pow2 b \<longleftrightarrow> a < b"
proof
  assume "pow2 a < pow2 b"
  show "a < b"
  proof (rule ccontr)
    assume "\<not> a < b"
    then have "b = a \<or> b < a" by linarith
    then have "pow2 b \<le> pow2 a" using pow2_strict_mono [of b a] by auto
    with \<open>pow2 a < pow2 b\<close> show False by simp
  qed
qed (rule pow2_strict_mono)

lemma pow2_le_iff [simp]: "pow2 a \<le> pow2 b \<longleftrightarrow> a \<le> b"
  using pow2_less_iff [of b a] by (simp only: not_less [symmetric])

lemma bitlen_pow2_bounds:
  assumes "0 < p"
  shows "pow2 (bitlen p - 1) \<le> of_int p \<and> of_int p < pow2 (bitlen p)"
proof -
  from bitlen_bounds [OF assms]
  have b: "(2::int) ^ nat (bitlen p - 1) \<le> p" "p < 2 ^ nat (bitlen p)"
    by simp_all
  have b1: "1 \<le> bitlen p"
    using assms bitlen_eq_zero_iff [of p] bitlen_nonneg [of p] by linarith
  have "pow2 (bitlen p - 1) = of_int (2 ^ nat (bitlen p - 1))"
    using b1 by (simp add: pow2_def)
  also have "\<dots> \<le> of_int p" using b(1) by (simp only: of_int_le_iff)
  finally have lo: "pow2 (bitlen p - 1) \<le> of_int p" .
  have "(of_int p :: rat) < of_int (2 ^ nat (bitlen p))"
    using b(2) by (simp only: of_int_less_iff)
  also have "\<dots> = pow2 (bitlen p)"
    using b1 by (simp add: pow2_def)
  finally show ?thesis using lo by simp
qed

lemma ilog2_bounds:
  assumes "0 < x"
  shows "pow2 (ilog2 x) \<le> x \<and> x < pow2 (ilog2 x + 1)"
proof -
  obtain p q where pq: "quotient_of x = (p, q)" by (cases "quotient_of x")
  then have q: "0 < q" and x: "x = of_int p / of_int q"
    by (simp_all add: quotient_of_denom_pos quotient_of_div)
  with assms have p: "0 < p" by (simp add: zero_less_divide_iff)
  define k where "k = bitlen p - bitlen q"
  note P = bitlen_pow2_bounds [OF p] and Q = bitlen_pow2_bounds [OF q]
  have qpos: "(0::rat) < of_int q" using q by simp
  have lo: "pow2 (k - 1) < x"
  proof -
    have "pow2 (k - 1) * of_int q < pow2 (k - 1) * pow2 (bitlen q)"
      using Q by simp
    also have "\<dots> = pow2 (bitlen p - 1)"
      by (simp add: k_def flip: pow2_add)
    also have "\<dots> \<le> of_int p" using P by simp
    finally show ?thesis using qpos by (simp add: x pos_less_divide_eq)
  qed
  have hi: "x < pow2 (k + 1)"
  proof -
    have "of_int p < pow2 (bitlen p)" using P by simp
    also have "\<dots> = pow2 (k + 1) * pow2 (bitlen q - 1)"
      by (simp add: k_def flip: pow2_add)
    also have "\<dots> \<le> pow2 (k + 1) * of_int q"
      using Q by simp
    finally show ?thesis using qpos by (simp add: x pos_divide_less_eq)
  qed
  have il: "ilog2 x = (if pow2 k \<le> x then k else k - 1)"
    by (simp add: ilog2_def pq k_def Let_def)
  show ?thesis
    using lo hi by (simp add: il)
qed

lemma ilog2_less:
  assumes "0 < x" and "x < pow2 j"
  shows "ilog2 x < j"
proof -
  from ilog2_bounds [OF assms(1)] assms(2) have "pow2 (ilog2 x) < pow2 j" by linarith
  then show ?thesis by simp
qed

lemma ilog2_ge:
  assumes "pow2 j \<le> x"
  shows "j \<le> ilog2 x"
proof -
  have x: "0 < x" using assms pow2_pos [of j] by linarith
  from ilog2_bounds [OF x] assms have "pow2 j < pow2 (ilog2 x + 1)" by linarith
  then show ?thesis by simp
qed

lemma ilog2_mono: "0 < x \<Longrightarrow> x \<le> y \<Longrightarrow> ilog2 x \<le> ilog2 y"
  using ilog2_bounds [of x] ilog2_ge [of "ilog2 x" y] by linarith


lemma round_half_even_of_int [simp]: "round_half_even (of_int n) = n"
  by (simp add: round_half_even_def)

lemma round_half_even_floor: "\<lfloor>x\<rfloor> \<le> round_half_even x"
  by (simp add: round_half_even_def Let_def)

lemma round_half_even_le:
  assumes "x \<le> of_int n"
  shows "round_half_even x \<le> n"
proof (cases "x = of_int n")
  case True
  then show ?thesis by simp
next
  case False
  with assms have "x < of_int n" by simp
  then have "\<lfloor>x\<rfloor> < n" by (simp add: floor_less_iff)
  moreover have "round_half_even x \<le> \<lfloor>x\<rfloor> + 1"
    by (simp add: round_half_even_def Let_def)
  ultimately show ?thesis by linarith
qed

lemma round_half_even_ge:
  assumes "of_int n \<le> x"
  shows "n \<le> round_half_even x"
proof -
  from assms have "n \<le> \<lfloor>x\<rfloor>" by (simp add: le_floor_iff)
  with round_half_even_floor [of x] show ?thesis by linarith
qed

lemma round_half_even_mono:
  assumes "x \<le> y"
  shows "round_half_even x \<le> round_half_even y"
proof (cases "\<lfloor>x\<rfloor> = \<lfloor>y\<rfloor>")
  case True
  with assms show ?thesis
    by (auto simp add: round_half_even_def Let_def)
next
  case False
  with assms have "\<lfloor>x\<rfloor> < \<lfloor>y\<rfloor>"
    using floor_mono [of x y] by linarith
  then have "\<lfloor>x\<rfloor> + 1 \<le> \<lfloor>y\<rfloor>" by simp
  moreover have "round_half_even x \<le> \<lfloor>x\<rfloor> + 1"
    by (simp add: round_half_even_def Let_def)
  ultimately show ?thesis
    using round_half_even_floor [of y] by linarith
qed

lemma fl_eq: "x \<noteq> 0 \<Longrightarrow> fl x = of_int (round_half_even (x / pow2 (fexp x))) * pow2 (fexp x)"
  by (simp add: fl_def)

lemma fl_zero [simp]: "fl 0 = 0"
  by (simp add: fl_def)

lemma fl_nonneg:
  assumes "0 \<le> x"
  shows "0 \<le> fl x"
proof (cases "x = 0")
  case True
  then show ?thesis by simp
next
  case False
  have "0 \<le> x / pow2 (fexp x)" using assms by simp
  then have "0 \<le> round_half_even (x / pow2 (fexp x))"
    using round_half_even_ge [of 0] by simp
  then show ?thesis using False by (simp add: fl_eq)
qed

lemma fl_exact:
  assumes "0 < m" and "m < 2 ^ 53" and "- 1074 \<le> e"
  shows "fl (of_int m * pow2 e) = of_int m * pow2 e"
proof -
  define x :: rat where "x = of_int m * pow2 e"
  define F where "F = fexp x"
  have x: "0 < x" using assms(1) by (simp add: x_def)
  have "of_int m < (2::rat) ^ 53"
    using assms(2) by (metis of_int_less_iff of_int_numeral of_int_power)
  then have "x < 2 ^ 53 * pow2 e" by (simp add: x_def)
  also have "\<dots> = pow2 (53 + e)"
    using pow2_add [of 53 e] by simp
  finally have "ilog2 x < 53 + e" using x by (rule ilog2_less [rotated])
  with assms(3) x have le: "F \<le> e" by (simp add: fexp_def F_def)
  define d where "d = nat (e - F)"
  have e: "e = F + int d" using le by (simp add: d_def)
  have pe: "pow2 e = pow2 F * 2 ^ d"
    by (subst e) (simp add: pow2_add)
  have "x / pow2 F = of_int m * (pow2 F * 2 ^ d) / pow2 F"
    by (simp add: x_def pe)
  also have "\<dots> = of_int (m * 2 ^ d)" by simp
  finally have "round_half_even (x / pow2 F) = m * 2 ^ d"
    by (simp only: round_half_even_of_int)
  then have "fl x = of_int (m * 2 ^ d) * pow2 F"
    using x by (simp add: fl_eq F_def)
  also have "\<dots> = of_int m * (pow2 F * 2 ^ d)" by simp
  also have "\<dots> = x" by (simp add: x_def pe)
  finally show ?thesis by (simp add: x_def)
qed

lemma fl_mono_pos:
  assumes "0 < x" and "x \<le> y"
  shows "fl x \<le> fl y"
proof -
  from assms have y: "0 < y" by linarith
  have ex: "fexp x \<le> fexp y"
    using ilog2_mono [of x y] assms y by (simp add: fexp_def)
  show ?thesis
  proof (cases "fexp x = fexp y")
    case True
    have "x / pow2 (fexp y) \<le> y / pow2 (fexp y)"
      using assms(2) by (simp add: divide_right_mono)
    then have "round_half_even (x / pow2 (fexp y)) \<le> round_half_even (y / pow2 (fexp y))"
      by (rule round_half_even_mono)
    then have "(of_int (round_half_even (x / pow2 (fexp y))) :: rat)
        \<le> of_int (round_half_even (y / pow2 (fexp y)))"
      by (simp only: of_int_le_iff)
    then show ?thesis
      using assms(1) y True by (simp add: fl_eq)
  next
    case False
    with ex have lt: "fexp x < fexp y" by simp
    have "- 1074 \<le> fexp x" by (simp add: fexp_def)
    with lt have ey: "fexp y = ilog2 y - 52"
      using y by (simp add: fexp_def max_def split: if_splits)
    have "ilog2 x \<le> fexp x + 52" using assms(1) by (simp add: fexp_def)
    then have "pow2 (ilog2 x + 1) \<le> pow2 (fexp x + 53)" by simp
    with ilog2_bounds [OF assms(1)] have "x < pow2 (fexp x + 53)" by linarith
    also have "\<dots> = 2 ^ 53 * pow2 (fexp x)"
      using pow2_add [of 53 "fexp x"] by (simp add: add.commute)
    finally have "x / pow2 (fexp x) \<le> of_int (2 ^ 53)"
      by (simp add: pos_divide_le_eq)
    then have "round_half_even (x / pow2 (fexp x)) \<le> 2 ^ 53"
      by (rule round_half_even_le)
    then have "(of_int (round_half_even (x / pow2 (fexp x))) :: rat) \<le> of_int (2 ^ 53)"
      by (simp only: of_int_le_iff)
    then have "fl x \<le> of_int (2 ^ 53) * pow2 (fexp x)"
      using assms(1) by (simp add: fl_eq)
    also have "\<dots> = pow2 (fexp x + 53)"
      using pow2_add [of 53 "fexp x"] by (simp add: add.commute)
    also have "\<dots> \<le> pow2 (fexp y + 52)" using lt by simp
    finally have lo: "fl x \<le> pow2 (fexp y + 52)" .
    have "pow2 (fexp y + 52) \<le> y"
      using ilog2_bounds [OF y] by (simp add: ey)
    moreover have "pow2 (fexp y + 52) = 2 ^ 52 * pow2 (fexp y)"
      using pow2_add [of 52 "fexp y"] by (simp add: add.commute)
    ultimately have "of_int (2 ^ 52) \<le> y / pow2 (fexp y)"
      by (simp add: pos_le_divide_eq)
    then have "2 ^ 52 \<le> round_half_even (y / pow2 (fexp y))"
      by (rule round_half_even_ge)
    then have "(of_int (2 ^ 52) :: rat) \<le> of_int (round_half_even (y / pow2 (fexp y)))"
      by (simp only: of_int_le_iff)
    then have "of_int (2 ^ 52) * pow2 (fexp y) \<le> fl y"
      using y by (simp add: fl_eq)
    then have "pow2 (fexp y + 52) \<le> fl y"
      using \<open>pow2 (fexp y + 52) = 2 ^ 52 * pow2 (fexp y)\<close> by simp
    with lo show ?thesis by linarith
  qed
qed

lemma fl_mono:
  assumes "0 \<le> x" and "x \<le> y"
  shows "fl x \<le> fl y"
proof (cases "x = 0")
  case True
  with assms fl_nonneg [of y] show ?thesis by simp
next
  case False
  with assms have "0 < x" by simp
  then show ?thesis using assms(2) by (rule fl_mono_pos)
qed

lemma fl_of_int:
  assumes "0 \<le> k" and "k < 2 ^ 53"
  shows "fl (of_int k) = of_int k"
proof (cases "k = 0")
  case True
  then show ?thesis by simp
next
  case False
  with assms have "0 < k" by simp
  from fl_exact [OF this assms(2), of 0] show ?thesis by (simp add: pow2_def)
qed

lemma fl_one [simp]: "fl 1 = 1"
  using fl_of_int [of 1] by simp

lemma fl_hundred [simp]: "fl 100 = 100"
  using fl_of_int [of 100] by simp

lemma round_half_even_error: "\<bar>of_int (round_half_even y) - y\<bar> \<le> 1 / 2"
proof -
  define d where "d = y - of_int \<lfloor>y\<rfloor>"
  have d: "0 \<le> d" "d < 1" unfolding d_def by linarith+
  have y: "y = of_int \<lfloor>y\<rfloor> + d" by (simp add: d_def)
  consider "d < 1 / 2" | "1 / 2 < d" | "d = 1 / 2" by linarith
  then show ?thesis
  proof cases
    case 1
    then have "round_half_even y = \<lfloor>y\<rfloor>"
      by (simp add: round_half_even_def Let_def d_def)
    with 1 d show ?thesis by (simp add: d_def)
  next
    case 2
    then have "round_half_even y = \<lfloor>y\<rfloor> + 1"
      by (simp add: round_half_even_def Let_def d_def)
    with 2 d show ?thesis by (simp add: d_def)
  next
    case 3
    then have "round_half_even y = \<lfloor>y\<rfloor> \<or> round_half_even y = \<lfloor>y\<rfloor> + 1"
      by (simp add: round_half_even_def Let_def d_def)
    with 3 show ?thesis by (auto simp add: d_def)
  qed
qed

lemma fl_error:
  assumes "x \<noteq> 0"
  shows "\<bar>fl x - x\<bar> \<le> pow2 (fexp x) / 2"
proof -
  define p where "p = pow2 (fexp x)"
  have p: "0 < p" by (simp add: p_def)
  define y where "y = x / p"
  have x: "x = y * p" using p by (simp add: y_def)
  have "fl x - x = (of_int (round_half_even y) - y) * p"
    using assms by (simp add: fl_eq y_def p_def algebra_simps)
  then have "\<bar>fl x - x\<bar> = \<bar>of_int (round_half_even y) - y\<bar> * p"
    using p by (simp add: abs_mult)
  also have "\<dots> \<le> 1 / 2 * p"
    using round_half_even_error [of y] p by (intro mult_right_mono) simp_all
  finally show ?thesis by (simp add: p_def)
qed

lemma fl_error_unit:
  assumes "0 \<le> x" and "x \<le> 1"
  shows "\<bar>fl x - x\<bar> \<le> 1 / 2 ^ 54"
proof -
  consider "x = 0" | "x = 1" | "0 < x" "x < 1" using assms by linarith
  then show ?thesis
  proof cases
    case 1
    then show ?thesis by simp
  next
    case 2
    then show ?thesis by simp
  next
    case 3
    from 3(2) have "x < pow2 0" by (simp add: pow2_def)
    with 3(1) have "ilog2 x < 0" by (rule ilog2_less)
    with 3(1) have "fexp x \<le> - 53" by (simp add: fexp_def)
    then have "pow2 (fexp x) \<le> pow2 (- 53)" by simp
    then have "pow2 (fexp x) / 2 \<le> 1 / 2 ^ 54" by (simp add: pow2_def)
    with fl_error [of x] 3(1) show ?thesis by linarith
  qed
qed

text \<open>Away from a tie, dividing first and multiplying by 100 afterwards still rounds to
  the integer nearest to the exact percentage.\<close>

lemma round_fl_percent:
  fixes c n :: int
  assumes "0 \<le> c" and "c \<le> n" and "0 < n" and "n \<le> 2 ^ 32"
    and tie: "\<not> (\<exists>j. 200 * c = (2 * j + 1) * n)"
  shows "\<lfloor>fl (fl (of_int c / of_int n) * 100) + 1 / 2\<rfloor>
           = \<lfloor>(100 * of_int c / of_int n :: rat) + 1 / 2\<rfloor>"
proof -
  define x :: rat where "x = of_int c / of_int n"
  define v :: rat where "v = 100 * of_int c / of_int n"
  define k where "k = \<lfloor>v + 1 / 2\<rfloor>"
  define q where "q = fl x"
  have npos: "(0::rat) < of_int n" using assms(3) by simp
  have x0: "0 \<le> x" using assms(1,3) by (simp add: x_def)
  have x1: "x \<le> 1" using assms(2) npos by (simp add: x_def pos_divide_le_eq)
  have vx: "v = 100 * x" by (simp add: v_def x_def)
  have v0: "0 \<le> v" using x0 by (simp add: vx)
  have v100: "v \<le> 100" using x1 by (simp add: vx)
  have k0: "0 \<le> k" using v0 by (simp add: k_def)
  have k100: "k \<le> 100" using v100 unfolding k_def by (simp add: floor_le_iff)
  have lo: "of_int k - 1 / 2 \<le> v" and hi: "v < of_int k + 1 / 2"
    unfolding k_def by linarith+
  have q0: "0 \<le> q" unfolding q_def using x0 by (rule fl_nonneg)
  have qerr: "\<bar>q - x\<bar> \<le> 1 / 2 ^ 54" unfolding q_def using x0 x1 by (rule fl_error_unit)
  have gap: "1 / 2 ^ 33 \<le> 1 / (2 * of_int n :: rat)"
  proof -
    have "(of_int n :: rat) \<le> of_int (2 ^ 32)" using assms(4) by (simp only: of_int_le_iff)
    then have "2 * (of_int n :: rat) \<le> 2 ^ 33" by simp
    then show ?thesis using npos by (simp add: frac_le)
  qed
  have vhi: "v \<le> of_int k + 1 / 2 - 1 / (2 * of_int n)"
  proof -
    from hi have "100 * of_int c < (of_int k + 1 / 2) * (of_int n :: rat)"
      using npos by (simp add: v_def pos_divide_less_eq)
    then have "(of_int (200 * c) :: rat) < of_int ((2 * k + 1) * n)"
      by (simp add: field_simps)
    then have "200 * c < (2 * k + 1) * n" by (simp only: of_int_less_iff)
    then have "200 * c + 1 \<le> (2 * k + 1) * n" by simp
    then have "(of_int (200 * c + 1) :: rat) \<le> of_int ((2 * k + 1) * n)"
      by (simp only: of_int_le_iff)
    then have "200 * of_int c + 1 \<le> (2 * of_int k + 1) * (of_int n :: rat)" by simp
    then show ?thesis using npos by (simp add: v_def field_simps)
  qed
  have vlo: "of_int k - 1 / 2 + 1 / (2 * of_int n) \<le> v"
  proof -
    from lo have "(of_int k - 1 / 2) * (of_int n :: rat) \<le> 100 * of_int c"
      using npos by (simp add: v_def pos_le_divide_eq)
    then have "(of_int ((2 * k - 1) * n) :: rat) \<le> of_int (200 * c)"
      by (simp add: field_simps)
    then have "(2 * k - 1) * n \<le> 200 * c" by (simp only: of_int_le_iff)
    moreover have "200 * c \<noteq> (2 * k - 1) * n"
    proof
      assume "200 * c = (2 * k - 1) * n"
      then have "200 * c = (2 * (k - 1) + 1) * n" by simp
      with tie show False by blast
    qed
    ultimately have "(2 * k - 1) * n + 1 \<le> 200 * c" by simp
    then have "(of_int ((2 * k - 1) * n + 1) :: rat) \<le> of_int (200 * c)"
      by (simp only: of_int_le_iff)
    then have i: "(2 * of_int k - 1) * (of_int n :: rat) + 1 \<le> 200 * of_int c" by simp
    have e1: "of_int k - 1 / 2 + 1 / (2 * of_int n)
        = ((2 * of_int k - 1) * (of_int n :: rat) + 1) / (2 * of_int n)"
      using npos by (simp add: field_simps)
    have e2: "v = (200 * of_int c) / (2 * of_int n)"
      using npos by (simp add: v_def)
    have "((2 * of_int k - 1) * (of_int n :: rat) + 1) / (2 * of_int n)
        \<le> (200 * of_int c) / (2 * of_int n)"
      using i npos by (intro divide_right_mono) simp_all
    then show ?thesis by (simp only: e1 e2)
  qed
  have small: "100 / 2 ^ 54 \<le> (1 / 2 ^ 34 :: rat)" by simp
  have q100: "\<bar>q * 100 - v\<bar> \<le> 100 / 2 ^ 54"
  proof -
    have "q * 100 - v = 100 * (q - x)" by (simp add: vx algebra_simps)
    then have "\<bar>q * 100 - v\<bar> = 100 * \<bar>q - x\<bar>" by (simp only: abs_mult abs_numeral)
    also have "\<dots> \<le> 100 * (1 / 2 ^ 54)"
      using qerr by (intro mult_left_mono) simp_all
    finally show ?thesis by simp
  qed
  have r0: "0 \<le> q * 100" using q0 by simp
  have rhi: "fl (q * 100) < of_int k + 1 / 2"
  proof -
    define m where "m = (2 * k + 1) * 2 ^ 33 - 1"
    define u :: rat where "u = of_int m * pow2 (- 34)"
    have m0: "0 < m" using k0 by (simp add: m_def)
    have m1: "m < 2 ^ 53" using k100 by (simp add: m_def)
    have u: "u = of_int k + 1 / 2 - 1 / 2 ^ 34"
      by (simp add: u_def m_def pow2_def field_simps)
    have fu: "fl u = u" unfolding u_def using fl_exact [OF m0 m1, of "- 34"] by simp
    have "q * 100 \<le> v + 100 / 2 ^ 54" using q100 by linarith
    also have "\<dots> \<le> of_int k + 1 / 2 - 1 / 2 ^ 33 + 1 / 2 ^ 34"
      using vhi gap small by linarith
    also have "\<dots> = u" by (simp add: u)
    finally have "q * 100 \<le> u" .
    from fl_mono [OF r0 this] fu have "fl (q * 100) \<le> u" by simp
    then show ?thesis by (simp add: u)
  qed
  have rlo: "of_int k - 1 / 2 \<le> fl (q * 100)"
  proof (cases "k = 0")
    case True
    with fl_nonneg [OF r0] show ?thesis by simp
  next
    case False
    with k0 have m: "0 < 2 * k - 1" by simp
    have "2 * k - 1 < 2 ^ 53" using k100 by simp
    from fl_exact [OF m this, of "- 1"]
    have e: "fl (of_int k - 1 / 2) = of_int k - 1 / 2"
      by (simp add: pow2_def field_simps)
    have l0: "0 \<le> (of_int k :: rat) - 1 / 2" using m by (simp add: field_simps)
    have "of_int k - 1 / 2 \<le> v - 1 / 2 ^ 33" using vlo gap by linarith
    also have "\<dots> \<le> v - 100 / 2 ^ 54" using small by simp
    also have "\<dots> \<le> q * 100" using q100 by linarith
    finally have "of_int k - 1 / 2 \<le> q * 100" .
    from fl_mono [OF l0 this] e show ?thesis by simp
  qed
  from rlo rhi have "\<lfloor>fl (q * 100) + 1 / 2\<rfloor> = k" by linarith
  then show ?thesis by (simp add: k_def q_def x_def v_def)
qed

section \<open>Mastery updates\<close>

lemma js_rem_nonneg: "0 \<le> a \<Longrightarrow> 0 < b \<Longrightarrow> js_rem a b = Some (a mod b)"
  by (cases "a = 0") (simp_all add: js_rem_def sgn_if)

lemma newMasteryLevel_spec:
  "- 1 \<le> m \<Longrightarrow> m \<le> 6 \<Longrightarrow> newMasteryLevel m correct = spec_applyReview m correct"
  by (simp add: newMasteryLevel_def spec_applyReview_def spec_clamp_def min_def max_def)

lemma handleMastery_level:
  assumes "currentIndex s = Some i" and "0 \<le> i" and "i < int (length (flashcards s))"
  shows "\<exists>s'. handleMastery correct s = Inr s' \<and>
           length (flashcards s') = length (flashcards s) \<and>
           mastery_level (flashcards s' ! nat i) =
             newMasteryLevel (mastery_level (flashcards s ! nat i)) correct \<and>
           mastery_updates s' = mastery_updates s @
             [(fc_id (flashcards s ! nat i),
               newMasteryLevel (mastery_level (flashcards s ! nat i)) correct)]"
  using assms by (simp add: handleMastery_def handleNext_def Let_def)

text \<open>
  C1. A review of the current card, whose mastery level is in \<open>[0,5]\<close>, leaves it at
  \<open>clamp(old + (correct ? 1 : -1), 0, 5)\<close>: the new level is in \<open>[0,5]\<close> and differs from
  the old one by at most 1. At level 5 a correct review leaves 5, at level 0 an incorrect
  one leaves 0.
\<close>

theorem handleMastery_clamped:
  assumes "currentIndex s = Some i" and "0 \<le> i" and "i < int (length (flashcards s))"
    and "0 \<le> mastery_level (flashcards s ! nat i)"
    and "mastery_level (flashcards s ! nat i) \<le> 5"
  shows "\<exists>s'. handleMastery correct s = Inr s' \<and>
           mastery_level (flashcards s' ! nat i) =
             spec_applyReview (mastery_level (flashcards s ! nat i)) correct \<and>
           0 \<le> mastery_level (flashcards s' ! nat i) \<and>
           mastery_level (flashcards s' ! nat i) \<le> 5 \<and>
           \<bar>mastery_level (flashcards s' ! nat i) - mastery_level (flashcards s ! nat i)\<bar> \<le> 1 \<and>
           (mastery_level (flashcards s ! nat i) = 5 \<and> correct
              \<longrightarrow> mastery_level (flashcards s' ! nat i) = 5) \<and>
           (mastery_level (flashcards s ! nat i) = 0 \<and> \<not> correct
              \<longrightarrow> mastery_level (flashcards s' ! nat i) = 0)"
proof -
  let ?m = "mastery_level (flashcards s ! nat i)"
  from handleMastery_level [OF assms(1-3), of correct]
  obtain s' where s': "handleMastery correct s = Inr s'"
    and lvl: "mastery_level (flashcards s' ! nat i) = newMasteryLevel ?m correct"
    by blast
  show ?thesis
    using s' lvl assms(4,5)
    by (auto simp add: newMasteryLevel_def spec_applyReview_def spec_clamp_def
        min_def max_def)
qed

theorem handleMastery_clamped_witness:
  "\<exists>s'. handleMastery True deck1 = Inr s' \<and> mastery_level (flashcards s' ! 0) = 5"
  using handleMastery_clamped [of deck1 0 True]
  by (auto simp add: deck1_def card5_def)


section \<open>Deck navigation\<close>

text \<open>
  C5. In a deck of \<open>n \<ge> 1\<close> cards at index \<open>i\<close> in \<open>[0,n)\<close>, previous then next comes
  back to \<open>i\<close>; both indices are in range, and each of the two steps leaves the card
  unflipped.
\<close>

theorem previous_then_next:
  assumes "currentIndex s = Some i" and "0 \<le> i" and "i < int (length (flashcards s))"
  shows "currentIndex (handleNext (handlePrevious s)) = Some i \<and>
         \<not> flipped (handlePrevious s) \<and> \<not> flipped (handleNext (handlePrevious s)) \<and>
         \<not> flipped (handleNext s) \<and>
         (\<exists>j. currentIndex (handlePrevious s) = Some j \<and> 0 \<le> j \<and>
               j < int (length (flashcards s)) \<and>
               j = (i - 1) mod int (length (flashcards s)))"
proof -
  let ?n = "int (length (flashcards s))"
  from assms have n: "0 < ?n" by linarith
  have prev: "js_rem (i - 1 + ?n) ?n = Some ((i - 1) mod ?n)"
    using assms n by (simp add: js_rem_nonneg)
  have rng: "0 \<le> (i - 1) mod ?n \<and> (i - 1) mod ?n < ?n"
    using n by simp
  have "((i - 1) mod ?n + 1) mod ?n = i mod ?n"
    by (metis diff_add_cancel mod_add_left_eq)
  with assms have ret: "((i - 1) mod ?n + 1) mod ?n = i" by simp
  have nxt: "js_rem ((i - 1) mod ?n + 1) ?n = Some i"
    using rng n ret by (simp add: js_rem_nonneg)
  show ?thesis
    using assms(1) prev nxt rng
    by (simp add: handleNext_def handlePrevious_def)
qed

theorem previous_then_next_witness:
  "currentIndex (handlePrevious deck3) = Some 2 \<and>
   currentIndex (handleNext (handlePrevious deck3)) = Some 0 \<and>
   \<not> flipped (handlePrevious deck3) \<and> \<not> flipped (handleNext (handlePrevious deck3))"
proof -
  have h: "currentIndex deck3 = Some 0" "(0::int) \<le> 0" "0 < int (length (flashcards deck3))"
    by (simp_all add: deck3_def)
  have n: "int (length (flashcards deck3)) = 3" by (simp add: deck3_def)
  from previous_then_next [OF h] show ?thesis by (auto simp add: n)
qed

section \<open>Quiz scores and messages\<close>

lemma quiz_score_range:
  assumes "outs \<noteq> []"
  shows "\<exists>k. quiz_score outs = Num (of_int k) \<and> 0 \<le> k \<and> k \<le> 100"
proof -
  define c :: rat where "c = of_nat (length (filter (\<lambda>a. a) outs))"
  define n :: rat where "n = of_nat (length outs)"
  have n: "0 < n" using assms by (simp add: n_def)
  have c: "0 \<le> c" "c \<le> n" by (simp_all add: c_def n_def)
  have q0: "0 \<le> c / n" and q1: "c / n \<le> 1"
    using n c by (simp_all add: pos_divide_le_eq)
  have f0: "0 \<le> fl (c / n)" using q0 by (rule fl_nonneg)
  have f1: "fl (c / n) \<le> 1" using fl_mono [OF q0 q1] by simp
  have r0: "0 \<le> fl (c / n) * 100" using f0 by simp
  have r1: "fl (c / n) * 100 \<le> 100" using f1 by simp
  have g0: "0 \<le> fl (fl (c / n) * 100)" using r0 by (rule fl_nonneg)
  have g1: "fl (fl (c / n) * 100) \<le> 100" using fl_mono [OF r0 r1] by simp
  define k where "k = \<lfloor>fl (fl (c / n) * 100) + 1 / 2\<rfloor>"
  have "quiz_score outs = Num (of_int k)"
    using n by (simp add: quiz_score_def js_div_def c_def n_def k_def)
  moreover have "0 \<le> k" using g0 by (simp add: k_def)
  moreover have "k \<le> 100" using g1 unfolding k_def by (simp add: floor_le_iff)
  ultimately show ?thesis by blast
qed

lemma getScoreMessage_Num:
  "fst (getScoreMessage (Num s)) =
     (if 90 \<le> s then ''Outstanding!'' else if 70 \<le> s then ''Great job!''
      else if 50 \<le> s then ''Good effort!'' else ''Keep studying!'')"
  by (simp add: getScoreMessage_def)

lemma quiz_score_0_of_3: "quiz_score [False, False, False] = Num 0"
  by code_simp

text \<open>
  C8. The message of a score \<open>s\<close> is "Outstanding!" from 90, "Great job!" from 70 below
  90, "Good effort!" from 50 below 70 and "Keep studying!" below 50, for every number
  \<open>s\<close>; so 92, 70 and 55 give the first three, and a quiz of three questions with no
  right answer scores 0 and gives the last.
\<close>

theorem getScoreMessage_tiers:
  "fst (getScoreMessage (Num s)) =
     (if 90 \<le> s then ''Outstanding!'' else if 70 \<le> s then ''Great job!''
      else if 50 \<le> s then ''Good effort!'' else ''Keep studying!'') \<and>
   fst (getScoreMessage (Num 92)) = ''Outstanding!'' \<and>
   fst (getScoreMessage (Num 70)) = ''Great job!'' \<and>
   fst (getScoreMessage (Num 55)) = ''Good effort!'' \<and>
   quiz_score [False, False, False] = Num 0 \<and>
   fst (getScoreMessage (quiz_score [False, False, False])) = ''Keep studying!''"
  by (simp add: getScoreMessage_Num quiz_score_0_of_3)

lemma quiz_score_3_of_4:
  "quiz_score [True, True, False, True] = Num 75 \<and> spec_score [True, True, False, True] = 75"
  by code_simp

text \<open>
  Unless the exact percentage is half an integer, the score is the percentage rounded to
  the nearest integer.
\<close>

lemma quiz_score_off_ties:
  assumes "outs \<noteq> []" and "length outs \<le> 2 ^ 32"
    and "\<not> (\<exists>j. 200 * int (length (filter (\<lambda>a. a) outs)) = (2 * j + 1) * int (length outs))"
  shows "quiz_score outs = Num (of_int (spec_score outs))"
proof -
  define c where "c = int (length (filter (\<lambda>a. a) outs))"
  define n where "n = int (length outs)"
  have c: "0 \<le> c" "c \<le> n" by (simp_all add: c_def n_def)
  have n: "0 < n" using assms(1) by (simp add: n_def)
  have nle: "n \<le> 2 ^ 32"
    using assms(2) unfolding n_def by (metis of_nat_le_iff of_nat_numeral of_nat_power)
  from assms(3) have tie: "\<not> (\<exists>j. 200 * c = (2 * j + 1) * n)" by (simp add: c_def n_def)
  from round_fl_percent [OF c n nle tie] n show ?thesis
    by (simp add: quiz_score_def spec_score_def spec_round_def js_div_def c_def n_def)
qed

text \<open>
  C2. The score of a finished quiz should be \<open>round(100 * right / answered)\<close>. The
  program divides first and multiplies by 100 afterwards, both in binary64: with 23 right answers
  out of 40 the product is just below 57.5 and the score is 57, where the formula gives
  58. Away from such ties the two agree (\<open>quiz_score_off_ties\<close>), and the score is
  always an integer in \<open>[0,100]\<close> (\<open>quiz_score_range\<close>).
\<close>

theorem quiz_score_23_of_40:
  "quiz_score outcomes_23_of_40 = Num 57 \<and> spec_score outcomes_23_of_40 = 58"
  by code_simp

text \<open>
  C3. The results screen should never be reached with no answers, so that the score never
  divides by zero. It is reached so when the learner leaves the question screen and
  starts a quiz while the insert of \<open>finishQuiz\<close> is pending: the pending
  \<open>setFinished(true)\<close> then puts the fresh attempt on the results screen, with no
  answers, and the score shown is \<open>0 / 0\<close>. When every insert settles before the next
  event, the results screen has one answer for each question
  (\<open>settled_results_complete\<close>, further down).
\<close>

theorem race_shows_empty_results:
  "(case run race_trace (mount (Some ''u1'') 0) of
      Some (Inr s) \<Rightarrow>
        screen_of s = ResultsScreen \<and> finished s \<and> selectedQuiz s = Some quiz1 \<and>
        answers s = [] \<and> shown_score s = NaN
    | _ \<Rightarrow> False)"
  by code_simp

section \<open>The quiz engine when inserts settle at once\<close>

lemma screen_QuestionD:
  "screen_of s = QuestionScreen \<Longrightarrow> \<exists>q. selectedQuiz s = Some q \<and> \<not> finished s"
  by (auto simp add: screen_of_def split: if_splits)

lemma screen_ResultsD:
  "screen_of s = ResultsScreen \<Longrightarrow> \<exists>q. selectedQuiz s = Some q \<and> finished s"
  by (auto simp add: screen_of_def split: if_splits)

lemma screen_ListD:
  "screen_of s = ListScreen \<Longrightarrow> selectedQuiz s = None \<and> \<not> loading s \<and> quizzes s \<noteq> []"
  by (auto simp add: screen_of_def split: if_splits)

lemma render_InrD: "render s = Inr s' \<Longrightarrow> s' = s"
  by (auto simp add: render_def split: option.splits if_splits)

lemma quiz_inv_mount: "quiz_inv (mount u now)"
  by (simp add: quiz_inv_def mount_def)

lemma inv_Loaded:
  assumes "quiz_inv s" and "fire (Loaded r) s = Some (Inr s')"
  shows "quiz_inv (settle s')"
proof -
  from assms(2) have "s' = loadQuizzes r s"
    by (auto simp add: fire_def dest: render_InrD split: if_splits)
  with assms(1) show ?thesis
    by (auto simp add: quiz_inv_def settle_def loadQuizzes_def split: option.splits)
qed

lemma inv_startQuiz:
  assumes "awaiting s = 0" and "render (startQuiz q s) = Inr s'"
    and "\<not> loading s" and "quizzes s \<noteq> []"
  shows "quiz_inv (settle s')"
proof -
  from assms(2) have s': "s' = startQuiz q s" by (rule render_InrD)
  have scr: "screen_of (startQuiz q s) = QuestionScreen"
    using assms(3,4) by (simp add: screen_of_def startQuiz_def)
  from assms(2) scr have "js_index (questions q) 0 \<noteq> None"
    by (auto simp add: render_def startQuiz_def split: if_splits)
  then have "0 < length (questions q)"
    by (auto simp add: js_index_def split: if_splits)
  with assms(1) show ?thesis
    by (simp add: s' quiz_inv_def settle_def startQuiz_def)
qed

lemma inv_StartQuiz:
  assumes "quiz_inv s" and "fire (StartQuiz q) s = Some (Inr s')"
  shows "quiz_inv (settle s')"
proof -
  from assms(2) have scr: "screen_of s = ListScreen" and r: "render (startQuiz q s) = Inr s'"
    by (auto simp add: fire_def split: if_splits)
  from screen_ListD [OF scr] assms(1) r show ?thesis
    by (intro inv_startQuiz [of s q]) (simp_all add: quiz_inv_def)
qed

lemma inv_Retake:
  assumes "quiz_inv s" and "fire Retake s = Some (Inr s')"
  shows "quiz_inv (settle s')"
proof -
  from assms(2) obtain q where scr: "screen_of s = ResultsScreen"
    and r: "render (startQuiz q s) = Inr s'"
    by (auto simp add: fire_def split: option.splits if_splits)
  from scr have "\<not> loading s \<and> quizzes s \<noteq> []"
    by (auto simp add: screen_of_def split: if_splits)
  with assms(1) r show ?thesis
    by (intro inv_startQuiz [of s q]) (simp_all add: quiz_inv_def)
qed

lemma inv_ClickOption:
  assumes "quiz_inv s" and "fire (ClickOption i) s = Some (Inr s')"
  shows "quiz_inv (settle s')"
proof -
  from assms(2) have "s' = clickOption i s"
    by (auto simp add: fire_def dest: render_InrD split: option.splits if_splits)
  with assms(1) show ?thesis
    by (auto simp add: quiz_inv_def settle_def clickOption_def split: option.splits)
qed

lemma inv_SubmitAnswer:
  assumes "quiz_inv s" and "fire SubmitAnswer s = Some (Inr s')"
  shows "quiz_inv (settle s')"
proof -
  from assms(2) have scr: "screen_of s = QuestionScreen" and sr: "\<not> showResult s"
    and h: "\<exists>t. handleAnswer s = Inr t \<and> render t = Inr s'"
    by (auto simp add: fire_def split: if_splits sum.splits)
  from h obtain t where t: "handleAnswer s = Inr t" and "render t = Inr s'" by blast
  then have s': "s' = t" by (simp add: render_InrD)
  from screen_QuestionD [OF scr] obtain q where q: "selectedQuiz s = Some q" "\<not> finished s"
    by blast
  from t q sr assms(1) show ?thesis
    by (auto simp add: s' handleAnswer_def quiz_inv_def settle_def Let_def
        split: option.splits if_splits)
qed

lemma inv_NextQuestion:
  assumes "quiz_inv s" and "fire (NextQuestion now) s = Some (Inr s')"
  shows "quiz_inv (settle s')"
proof -
  from assms(2) have scr: "screen_of s = QuestionScreen" and sr: "showResult s"
    and h: "\<exists>t. handleNext_quiz now s = Inr t \<and> render t = Inr s'"
    by (auto simp add: fire_def split: if_splits sum.splits)
  from h obtain t where t: "handleNext_quiz now s = Inr t" and "render t = Inr s'" by blast
  then have s': "s' = t" by (simp add: render_InrD)
  from screen_QuestionD [OF scr] obtain q where q: "selectedQuiz s = Some q" "\<not> finished s"
    by blast
  from assms(1) q sr have a: "awaiting s = 0" and rng: "0 \<le> currentQuestion s"
    "currentQuestion s < int (length (questions q))"
    and len: "int (length (answers s)) = currentQuestion s + 1"
    by (simp_all add: quiz_inv_def)
  show ?thesis
  proof (cases "currentQuestion s < int (length (questions q)) - 1")
    case True
    with t q have "t = s\<lparr>currentQuestion := currentQuestion s + 1, selectedAnswer := None,
        showResult := False\<rparr>"
      by (simp add: handleNext_quiz_def)
    with a q rng len True show ?thesis
      by (simp add: s' quiz_inv_def settle_def)
  next
    case False
    with rng have last: "currentQuestion s = int (length (questions q)) - 1" by linarith
    from False t q have "finishQuiz now s = Inr t" by (simp add: handleNext_quiz_def)
    with q obtain u where "t = s\<lparr>study_sessions := study_sessions s @
        [\<lparr>user_id = u, session_type = ''quiz'', content_id = quiz_id q,
          score = Some (quiz_score (answers s)), completed = True,
          duration_minutes = session_duration now (sessionStart s)\<rparr>],
        awaiting := Suc (awaiting s)\<rparr>"
      by (auto simp add: finishQuiz_def split: option.splits)
    with a q len last rng show ?thesis
      by (auto simp add: s' quiz_inv_def settle_def finishQuiz_resume_def)
  qed
qed

lemma inv_Back:
  assumes "quiz_inv s" and "fire Back s = Some (Inr s')"
  shows "quiz_inv (settle s')"
proof -
  from assms(2) have "s' = clickBack s"
    by (auto simp add: fire_def dest: render_InrD split: if_splits)
  with assms(1) show ?thesis
    by (simp add: quiz_inv_def settle_def clickBack_def)
qed

lemma inv_BackToQuizzes:
  assumes "quiz_inv s" and "fire BackToQuizzes s = Some (Inr s')"
  shows "quiz_inv (settle s')"
proof -
  from assms(2) have "s' = backToQuizzes s"
    by (auto simp add: fire_def dest: render_InrD split: if_splits)
  with assms(1) show ?thesis
    by (simp add: quiz_inv_def settle_def backToQuizzes_def)
qed

lemma inv_InsertSettled:
  assumes "quiz_inv s" and "fire InsertSettled s = Some (Inr s')"
  shows "quiz_inv (settle s')"
  using assms by (simp add: fire_def quiz_inv_def)

lemma fire_settle_inv:
  assumes "quiz_inv s" and "fire e s = Some (Inr s')"
  shows "quiz_inv (settle s')"
  using assms
  by (cases e)
    (blast intro: inv_Loaded inv_StartQuiz inv_ClickOption inv_SubmitAnswer inv_NextQuestion
      inv_Back inv_Retake inv_BackToQuizzes inv_InsertSettled)+

lemma run_settled_inv:
  "quiz_inv s \<Longrightarrow> run_settled es s = Some (Inr s') \<Longrightarrow> quiz_inv s'"
proof (induction es arbitrary: s)
  case Nil
  then show ?case by simp
next
  case (Cons e es)
  from Cons.prems(2) obtain t where t: "fire e s = Some (Inr t)"
    and rest: "run_settled es (settle t) = Some (Inr s')"
    by (auto split: option.splits sum.splits)
  from fire_settle_inv [OF Cons.prems(1) t] rest show ?case
    by (rule Cons.IH)
qed

lemma settled_results_complete:
  assumes "run_settled es (mount u t0) = Some (Inr s)" and "screen_of s = ResultsScreen"
  shows "\<exists>q k. selectedQuiz s = Some q \<and> length (answers s) = length (questions q) \<and>
           answers s \<noteq> [] \<and> shown_score s = Num (of_int k) \<and> 0 \<le> k \<and> k \<le> 100"
proof -
  from run_settled_inv [OF quiz_inv_mount assms(1)] have inv: "quiz_inv s" .
  from screen_ResultsD [OF assms(2)] obtain q where q: "selectedQuiz s = Some q" "finished s"
    by blast
  with inv have a: "answers s \<noteq> []" "length (answers s) = length (questions q)"
    by (simp_all add: quiz_inv_def)
  from quiz_score_range [OF a(1)] q a show ?thesis
    by (auto simp add: shown_score_def)
qed

section \<open>Retake and the session start\<close>

lemma handleAnswer_sessionStart: "handleAnswer s = Inr t \<Longrightarrow> sessionStart t = sessionStart s"
  by (auto simp add: handleAnswer_def Let_def split: option.splits)

lemma handleNext_quiz_sessionStart:
  "handleNext_quiz now s = Inr t \<Longrightarrow> sessionStart t = sessionStart s"
  by (auto simp add: handleNext_quiz_def finishQuiz_def split: option.splits if_splits)

lemma fire_sessionStart:
  assumes "fire e s = Some (Inr s')"
  shows "sessionStart s' = sessionStart s"
proof (cases e)
  case (Loaded r)
  with assms show ?thesis
    by (auto simp add: fire_def loadQuizzes_def dest!: render_InrD split: option.splits if_splits)
next
  case (StartQuiz q)
  with assms show ?thesis
    by (auto simp add: fire_def startQuiz_def dest!: render_InrD split: if_splits)
next
  case (ClickOption i)
  with assms show ?thesis
    by (auto simp add: fire_def clickOption_def dest!: render_InrD
        split: option.splits if_splits)
next
  case SubmitAnswer
  with assms show ?thesis
    by (auto simp add: fire_def dest!: render_InrD handleAnswer_sessionStart
        split: if_splits sum.splits)
next
  case (NextQuestion now)
  with assms show ?thesis
    by (auto simp add: fire_def dest!: render_InrD handleNext_quiz_sessionStart
        split: if_splits sum.splits)
next
  case Back
  with assms show ?thesis
    by (auto simp add: fire_def clickBack_def dest!: render_InrD split: if_splits)
next
  case Retake
  with assms show ?thesis
    by (auto simp add: fire_def startQuiz_def dest!: render_InrD
        split: option.splits if_splits)
next
  case BackToQuizzes
  with assms show ?thesis
    by (auto simp add: fire_def backToQuizzes_def dest!: render_InrD split: if_splits)
next
  case InsertSettled
  with assms show ?thesis
    by (auto simp add: fire_def finishQuiz_resume_def dest!: render_InrD split: if_splits)
qed

lemma run_sessionStart:
  "run es s = Some (Inr s') \<Longrightarrow> sessionStart s' = sessionStart s"
proof (induction es arbitrary: s)
  case Nil
  then show ?case by simp
next
  case (Cons e es)
  from Cons.prems obtain t where t: "fire e s = Some (Inr t)"
    and rest: "run es t = Some (Inr s')"
    by (auto split: option.splits sum.splits)
  from Cons.IH [OF rest] fire_sessionStart [OF t] show ?case by simp
qed

lemma finishQuiz_duration:
  assumes "finishQuiz now s = Inr t" and "selectedQuiz s \<noteq> None"
  shows "duration_minutes (last (study_sessions t)) = session_duration now (sessionStart s)"
  using assms by (auto simp add: finishQuiz_def split: option.splits)

text \<open>
  C4, as the program has it. Retake, on the results screen of a quiz with a question,
  shows question 0 of the same quiz with no answers, nothing selected and nothing
  revealed. It leaves \<open>sessionStart\<close> and the rows already sent as they were; whatever
  follows, \<open>sessionStart\<close> is still the one before the retake, and a later
  \<open>finishQuiz\<close> at the time \<open>now\<close> records the minutes from that \<open>sessionStart\<close>, the
  time of the mount, to \<open>now\<close>.
\<close>

theorem retake_keeps_sessionStart:
  assumes "screen_of s = ResultsScreen" and "selectedQuiz s = Some q" and "questions q \<noteq> []"
  shows "\<exists>s'. fire Retake s = Some (Inr s') \<and>
           selectedQuiz s' = Some q \<and> currentQuestion s' = 0 \<and> selectedAnswer s' = None \<and>
           \<not> showResult s' \<and> answers s' = [] \<and> \<not> finished s' \<and>
           screen_of s' = QuestionScreen \<and>
           sessionStart s' = sessionStart s \<and> study_sessions s' = study_sessions s \<and>
           (\<forall>es s'' now t.
              run es s' = Some (Inr s'') \<and> selectedQuiz s'' \<noteq> None \<and>
              finishQuiz now s'' = Inr t \<longrightarrow>
              sessionStart s'' = sessionStart s \<and>
              duration_minutes (last (study_sessions t)) =
                session_duration now (sessionStart s))"
proof -
  from assms(1) have scr: "\<not> loading s" "quizzes s \<noteq> []"
    by (auto simp add: screen_of_def split: if_splits)
  then have scr': "screen_of (startQuiz q s) = QuestionScreen"
    by (simp add: screen_of_def startQuiz_def)
  from assms(3) have "js_index (questions q) 0 \<noteq> None"
    by (simp add: js_index_def)
  then have "render (startQuiz q s) = Inr (startQuiz q s)"
    by (auto simp add: render_def startQuiz_def)
  with assms(1,2) have f: "fire Retake s = Some (Inr (startQuiz q s))"
    by (simp add: fire_def)
  have later: "sessionStart s'' = sessionStart s \<and>
      duration_minutes (last (study_sessions t)) = session_duration now (sessionStart s)"
    if "run es (startQuiz q s) = Some (Inr s'')" and "selectedQuiz s'' \<noteq> None"
      and "finishQuiz now s'' = Inr t" for es s'' now t
  proof -
    from run_sessionStart [OF that(1)] have "sessionStart s'' = sessionStart s"
      by (simp add: startQuiz_def)
    with finishQuiz_duration [OF that(3,2)] show ?thesis by simp
  qed
  show ?thesis
    using f scr' later by (intro exI [of _ "startQuiz q s"]) (auto simp add: startQuiz_def)
qed

lemma first_attempt_done_facts:
  "screen_of first_attempt_done = ResultsScreen \<and> selectedQuiz first_attempt_done = Some quiz1
   \<and> questions quiz1 \<noteq> [] \<and> sessionStart first_attempt_done = 0
   \<and> study_sessions first_attempt_done \<noteq> []"
  by code_simp

theorem retake_keeps_sessionStart_witness:
  "\<exists>s'. fire Retake first_attempt_done = Some (Inr s') \<and> answers s' = [] \<and>
     currentQuestion s' = 0 \<and> selectedQuiz s' = Some quiz1 \<and> sessionStart s' = 0"
  using retake_keeps_sessionStart [of first_attempt_done quiz1] first_attempt_done_facts
  by auto

text \<open>
  C4 as stated fails: a quiz view mounted at time 0, a first attempt finished at minute 10,
  a retake, and the second attempt finished at minute 12. The second row records 12
  minutes, the time since the mount; the two minutes since the retake would be recorded
  as 2.
\<close>

theorem retake_duration_from_mount:
  "(case run retake_trace (mount (Some ''u1'') 0) of
      Some (Inr s) \<Rightarrow>
        sessionStart s = 0 \<and>
        map duration_minutes (study_sessions s) = [Num 10, Num 12]
    | _ \<Rightarrow> False) \<and>
   session_duration 720000 600000 = Num 2"
  by code_simp

section \<open>The dashboard's average score\<close>

lemma score_or_0_eq: "score_or_0 s = (case row_score s of None \<Rightarrow> 0 | Some v \<Rightarrow> v)"
  by (simp add: score_or_0_def split: option.splits)

lemma foldl_scores_exact:
  assumes "0 \<le> a" and "a + 100 * int (length xs) < 2 ^ 53"
    and "\<forall>s\<in>set xs. 0 \<le> score_or_0 s \<and> score_or_0 s \<le> 100"
  shows "foldl (\<lambda>acc s. fl (acc + of_int (score_or_0 s))) (of_int a) xs
           = of_int (a + sum_list (map score_or_0 xs))"
  using assms
proof (induction xs arbitrary: a)
  case Nil
  then show ?case by simp
next
  case (Cons x xs)
  let ?v = "score_or_0 x"
  from Cons.prems(3) have v: "0 \<le> ?v" "?v \<le> 100" by simp_all
  with Cons.prems(1,2) have b: "0 \<le> a + ?v" "a + ?v < 2 ^ 53" by simp_all
  have step: "fl (of_int a + of_int ?v) = of_int (a + ?v)"
    using fl_of_int [OF b] by simp
  have "a + ?v + 100 * int (length xs) < 2 ^ 53"
    using Cons.prems(2) v by simp
  with Cons.IH [of "a + ?v"] b(1) Cons.prems(3)
  have "foldl (\<lambda>acc s. fl (acc + of_int (score_or_0 s))) (of_int (a + ?v)) xs
      = of_int (a + ?v + sum_list (map score_or_0 xs))"
    by simp
  then show ?case by (simp add: step add.assoc)
qed

lemma sum_scores_exact:
  assumes "length xs \<le> 2 ^ 32"
    and "\<forall>s\<in>set xs. 0 \<le> score_or_0 s \<and> score_or_0 s \<le> 100"
  shows "sum_scores xs = of_int (sum_list (map score_or_0 xs))"
proof -
  from assms(1) have "int (length xs) \<le> 2 ^ 32"
    by (metis of_nat_le_iff of_nat_numeral of_nat_power)
  then have "0 + 100 * int (length xs) < 2 ^ 53" by simp
  from foldl_scores_exact [OF _ this assms(2)] show ?thesis
    by (simp add: sum_scores_def)
qed

lemma sum_list_bounds:
  assumes "\<forall>s\<in>set xs. 0 \<le> f s \<and> f s \<le> (100::int)"
  shows "0 \<le> sum_list (map f xs) \<and> sum_list (map f xs) \<le> 100 * int (length xs)"
  using assms by (induction xs) auto

text \<open>The quotient of two integers, rounded to binary64 and then to an integer, is the
  exact quotient rounded to an integer.\<close>

lemma round_fl_quotient:
  fixes S n :: int
  assumes "0 \<le> S" and "S \<le> 100 * n" and "0 < n" and "n \<le> 2 ^ 32"
  shows "\<lfloor>fl (of_int S / of_int n) + 1 / 2\<rfloor> = \<lfloor>(of_int S / of_int n :: rat) + 1 / 2\<rfloor>"
proof -
  define x :: rat where "x = of_int S / of_int n"
  define k where "k = \<lfloor>x + 1 / 2\<rfloor>"
  have npos: "(0::rat) < of_int n" using assms(3) by simp
  have x0: "0 \<le> x" using assms(1,3) by (simp add: x_def)
  have x100: "x \<le> 100"
  proof -
    have "(of_int S :: rat) \<le> of_int (100 * n)" using assms(2) by (simp only: of_int_le_iff)
    then show ?thesis using npos by (simp add: x_def pos_divide_le_eq)
  qed
  have k0: "0 \<le> k" using x0 by (simp add: k_def)
  have k100: "k \<le> 100" using x100 unfolding k_def by (simp add: floor_le_iff)
  have lo: "of_int k - 1 / 2 \<le> x" and hi: "x < of_int k + 1 / 2"
    unfolding k_def by linarith+
  have flo: "of_int k - 1 / 2 \<le> fl x"
  proof (cases "k = 0")
    case True
    with fl_nonneg [OF x0] show ?thesis by simp
  next
    case False
    with k0 have m: "0 < 2 * k - 1" by simp
    have "2 * k - 1 < 2 ^ 53" using k100 by simp
    from fl_exact [OF m this, of "- 1"]
    have e: "fl (of_int k - 1 / 2) = of_int k - 1 / 2"
      by (simp add: pow2_def field_simps)
    have "0 \<le> (of_int k :: rat) - 1 / 2" using m by (simp add: field_simps)
    from fl_mono [OF this lo] e show ?thesis by simp
  qed
  have fhi: "fl x < of_int k + 1 / 2"
  proof -
    define m where "m = (2 * k + 1) * 2 ^ 32 - 1"
    define u :: rat where "u = of_int m * pow2 (- 33)"
    have m0: "0 < m" using k0 by (simp add: m_def)
    have m1: "m < 2 ^ 53" using k100 by (simp add: m_def)
    have u: "u = of_int k + 1 / 2 - 1 / 2 ^ 33"
      by (simp add: u_def m_def pow2_def field_simps)
    have fu: "fl u = u" unfolding u_def using fl_exact [OF m0 m1, of "- 33"] by simp
    have "2 * S < (2 * k + 1) * n"
    proof -
      from hi have "of_int S < (of_int k + 1 / 2) * (of_int n :: rat)"
        using npos by (simp add: x_def pos_divide_less_eq)
      then have "(of_int (2 * S) :: rat) < of_int ((2 * k + 1) * n)"
        by (simp add: field_simps)
      then show ?thesis by (simp only: of_int_less_iff)
    qed
    then have "2 * S + 1 \<le> (2 * k + 1) * n" by simp
    then have "(of_int (2 * S + 1) :: rat) \<le> of_int ((2 * k + 1) * n)"
      by (simp only: of_int_le_iff)
    then have "2 * of_int S + 1 \<le> (2 * of_int k + 1) * (of_int n :: rat)" by simp
    then have "x \<le> of_int k + 1 / 2 - 1 / (2 * of_int n)"
      using npos by (simp add: x_def field_simps)
    moreover have "1 / 2 ^ 33 \<le> 1 / (2 * of_int n :: rat)"
    proof -
      have "(of_int n :: rat) \<le> of_int (2 ^ 32)" using assms(4) by (simp only: of_int_le_iff)
      then have "2 * (of_int n :: rat) \<le> 2 ^ 33" by simp
      then show ?thesis using npos by (simp add: frac_le)
    qed
    ultimately have "x \<le> u" by (simp add: u)
    from fl_mono [OF x0 this] fu have "fl x \<le> u" by simp
    then show ?thesis by (simp add: u) 
  qed
  from flo fhi have "\<lfloor>fl x + 1 / 2\<rfloor> = k" by linarith
  then show ?thesis by (simp add: k_def x_def)
qed


lemma Math_round_0 [simp]: "Math_round (Num 0) = Num 0"
proof -
  have "\<lfloor>(1 / 2 :: rat)\<rfloor> = 0" by (rule floor_unique) simp_all
  then show ?thesis by simp
qed

text \<open>
  C10. For at most \<open>2^32\<close> rows (an array) whose scores are in \<open>[0,100]\<close>, the
  dashboard's average is the arithmetic mean of the scores of the completed rows that
  have one, rounded to an integer, whenever there is such a row; with no such row, and
  with no data, it is 0 and nothing is divided. It is an integer in \<open>[0,100]\<close>.
\<close>

theorem averageScore_rounded_mean:
  assumes "\<forall>s\<in>set rows. \<forall>v. row_score s = Some v \<longrightarrow> 0 \<le> v \<and> v \<le> 100"
    and "length rows \<le> 2 ^ 32"
  shows "averageScore (Some rows) =
           Num (of_int (if spec_qualifying rows = [] then 0
                        else spec_round (spec_mean rows))) \<and>
         (\<exists>k. averageScore (Some rows) = Num (of_int k) \<and> 0 \<le> k \<and> k \<le> 100) \<and>
         averageScore None = Num 0"
proof -
  define cs where "cs = filter (\<lambda>s. row_completed s \<and> row_score s \<noteq> None) rows"
  define S where "S = sum_list (map score_or_0 cs)"
  define n where "n = int (length cs)"
  have cs: "completedSessions (Some rows) = cs"
    by (simp add: completedSessions_def cs_def)
  have sq: "spec_qualifying rows = cs"
    by (simp add: spec_qualifying_def cs_def)
  have len: "length cs \<le> 2 ^ 32"
    using assms(2) length_filter_le [of _ rows] unfolding cs_def by (rule order_trans [rotated])
  have rng: "\<forall>s\<in>set cs. 0 \<le> score_or_0 s \<and> score_or_0 s \<le> 100"
    using assms(1) by (auto simp add: cs_def score_or_0_def split: option.splits)
  have sum: "sum_scores cs = of_int S"
    using sum_scores_exact [OF len rng] by (simp add: S_def)
  have Sb: "0 \<le> S" "S \<le> 100 * n"
    using sum_list_bounds [OF rng] by (simp_all add: S_def n_def)
  have none: "averageScore None = Num 0"
    by (simp add: averageScore_def avgScore_def completedSessions_def del: Math_round.simps)
  show ?thesis
  proof (cases "cs = []")
    case True
    then have "averageScore (Some rows) = Num 0"
      by (simp add: averageScore_def avgScore_def cs del: Math_round.simps)
    with True none show ?thesis by (simp add: cs sq)
  next
    case False
    then have npos: "0 < n" by (simp add: n_def)
    have nle: "n \<le> 2 ^ 32"
      using len unfolding n_def by (metis of_nat_le_iff of_nat_numeral of_nat_power)
    have "score_or_0 = (\<lambda>s. case row_score s of None \<Rightarrow> 0 | Some v \<Rightarrow> v)"
      by (rule ext) (rule score_or_0_eq)
    then have mean: "spec_mean rows = of_int S / of_int n"
      unfolding spec_mean_def spec_qualifying_def S_def n_def cs_def by simp
    define k where "k = \<lfloor>(of_int S / of_int n :: rat) + 1 / 2\<rfloor>"
    have "averageScore (Some rows) = Num (of_int \<lfloor>fl (of_int S / of_int n) + 1 / 2\<rfloor>)"
      using False npos by (simp add: averageScore_def avgScore_def cs sum js_div_def n_def)
    also have "\<dots> = Num (of_int k)"
      using round_fl_quotient [OF Sb npos nle] by (simp add: k_def)
    finally have avg: "averageScore (Some rows) = Num (of_int k)" .
    have q0: "(0::rat) \<le> of_int S / of_int n" using Sb(1) npos by simp
    have q1: "of_int S / of_int n \<le> (100::rat)"
    proof -
      have "(of_int S :: rat) \<le> of_int (100 * n)" using Sb(2) by (simp only: of_int_le_iff)
      then show ?thesis using npos by (simp add: pos_divide_le_eq)
    qed
    have k0: "0 \<le> k" using q0 by (simp add: k_def)
    have k1: "k \<le> 100" using q1 unfolding k_def by (simp add: floor_le_iff)
    have "spec_round (spec_mean rows) = k"
      by (simp add: spec_round_def mean k_def)
    with avg k0 k1 False none show ?thesis by (auto simp add: cs sq)
  qed
qed


lemma sessions_example_facts:
  "spec_qualifying sessions_example \<noteq> [] \<and>
   spec_round (spec_mean sessions_example) = 67"
  by code_simp

theorem averageScore_rounded_mean_witness:
  "averageScore (Some sessions_example) = Num 67"
proof -
  have h1: "\<forall>s\<in>set sessions_example. \<forall>v. row_score s = Some v \<longrightarrow> 0 \<le> v \<and> v \<le> 100"
    by (simp add: sessions_example_def)
  have h2: "length sessions_example \<le> 2 ^ 32"
    by (simp add: sessions_example_def)
  from averageScore_rounded_mean [OF h1 h2] sessions_example_facts show ?thesis by simp
qed

section \<open>Flashcard generation on empty and malformed responses\<close>

lemma get_prop_Inl_iff: "(\<exists>e. get_prop v k = Inl e) \<longleftrightarrow> v = JNull"
  by (cases v) (simp_all add: get_prop_def)

lemma flashcardsToInsert_no_flashcards:
  assumes "no_flashcards r"
  shows "\<exists>e. flashcardsToInsert s doc (Response r) = Inl e \<and>
           (env_configured s \<and> reaches_format_checks r \<longrightarrow>
              e = (if flashcards_field r = Some (JArr []) then Error ''No flashcards generated''
                   else Error ''Invalid response format''))"
proof (cases "json_body r")
  case (Inl m)
  then show ?thesis
    by (simp add: flashcardsToInsert_def reaches_format_checks_def)
next
  case (Inr data)
  show ?thesis
  proof (cases "get_prop data ''error''")
    case (Inl e)
    with Inr show ?thesis
      by (simp add: flashcardsToInsert_def reaches_format_checks_def)
  next
    case err: (Inr err)
    show ?thesis
    proof (cases "get_prop data ''flashcards''")
      case (Inl e)
      then have "data = JNull" using get_prop_Inl_iff [of data "''flashcards''"] by blast
      with err have False using get_prop_Inl_iff [of data "''error''"] by auto
      then show ?thesis ..
    next
      case fc: (Inr v)
      from assms Inr fc have v: "(case v of Some (JArr fcs) \<Rightarrow> fcs = [] | _ \<Rightarrow> True)"
        by (simp add: no_flashcards_def flashcards_field_def)
      from Inr fc have ff: "flashcards_field r = v" by (simp add: flashcards_field_def)
      from v Inr err fc show ?thesis
        by (auto simp add: flashcardsToInsert_def reaches_format_checks_def ff
            split: option.splits json.splits)
    qed
  qed
qed

text \<open>
  C6, as the program has it. For every response whose \<open>flashcards\<close> field is missing,
  not an array or an empty array, generation throws, alerts the error and sends no row to
  \<open>flashcards\<close>. When the environment is configured and the response reaches the checks
  of the field (status OK, a JSON body other than \<open>null\<close>, no truthy \<open>error\<close>), the
  error is "No flashcards generated" for the empty array and "Invalid response format"
  otherwise; a response stopped earlier fails with the error of that earlier check.
\<close>

theorem no_flashcards_no_insert:
  assumes "no_flashcards r"
  shows "\<exists>e. flashcardsToInsert s doc (Response r) = Inl e \<and>
           flashcards_table (generateFlashcards doc (Response r) s) = flashcards_table s \<and>
           alerts (generateFlashcards doc (Response r) s) =
             alerts s @ [''Error generating flashcards: '' @ message e] \<and>
           (env_configured s \<and> reaches_format_checks r \<longrightarrow>
              e = (if flashcards_field r = Some (JArr []) then Error ''No flashcards generated''
                   else Error ''Invalid response format''))"
proof -
  from flashcardsToInsert_no_flashcards [OF assms, of s doc]
  obtain e where e: "flashcardsToInsert s doc (Response r) = Inl e"
    and m: "env_configured s \<and> reaches_format_checks r \<longrightarrow>
      e = (if flashcards_field r = Some (JArr []) then Error ''No flashcards generated''
           else Error ''Invalid response format'')"
    by blast
  from e have "flashcards_table (generateFlashcards doc (Response r) s) = flashcards_table s"
    and "alerts (generateFlashcards doc (Response r) s) =
      alerts s @ [''Error generating flashcards: '' @ message e]"
    by (simp_all add: generateFlashcards_def alert_def)
  with e m show ?thesis by blast
qed

lemma empty_response_facts:
  "no_flashcards empty_response \<and> env_configured docs_state \<and>
   reaches_format_checks empty_response \<and> flashcards_field empty_response = Some (JArr [])"
  by code_simp

theorem no_flashcards_no_insert_witness:
  "flashcardsToInsert docs_state doc1 (Response empty_response)
     = Inl (Error ''No flashcards generated'') \<and>
   flashcards_table (generateFlashcards doc1 (Response empty_response) docs_state)
     = flashcards_table docs_state"
  using no_flashcards_no_insert [of empty_response docs_state doc1] empty_response_facts
  by auto

text \<open>
  C6 as stated fails: an OK response \<open>{"error": "Rate limit exceeded"}\<close> has no
  \<open>flashcards\<close> field, and generation fails with the message of the payload, which is
  neither of the two.
\<close>

theorem error_payload_other_message:
  "no_flashcards error_response \<and>
   flashcardsToInsert docs_state doc1 (Response error_response)
     = Inl (Error ''Rate limit exceeded'') \<and>
   alerts (generateFlashcards doc1 (Response error_response) docs_state)
     = [''Error generating flashcards: Rate limit exceeded'']"
  by code_simp

section \<open>Uploads are stored as text\<close>

lemma parseFile_blank_file:
  "parseFile blank_file = Inl (Error ''Failed to parse txt file: File content is empty'')"
  by code_simp

lemma parsePDF_nonempty: "parsePDF file = Inr c \<Longrightarrow> c \<noteq> []"
  by (auto simp add: parsePDF_def Let_def split: sum.splits if_splits)

lemma parseFile_type:
  assumes "parseFile file = Inr (c, t)"
  shows "t = toLowerCase (after_last_dot (file_name file)) \<and>
         t \<in> set [''pdf'', ''txt'', ''md'', ''doc'', ''docx''] \<and> c \<noteq> []"
proof (cases "toLowerCase (after_last_dot (file_name file)) = ''pdf''")
  case True
  with assms show ?thesis
    by (auto simp add: parseFile_def Let_def dest: parsePDF_nonempty split: sum.splits)
next
  case False
  with assms show ?thesis
    by (auto simp add: parseFile_def Let_def parseTextFile_def split: sum.splits if_splits)
qed

lemma handleSubmit_rows:
  "\<exists>rows. documents_table (handleSubmit reply s) = documents_table s @ rows \<and>
          (\<forall>r\<in>set rows. ins_file_type r = ''text'') \<and>
          length (documents (handleSubmit reply s)) = length (documents s) + length rows \<and>
          (rows \<noteq> [] \<longrightarrow> file_type (hd (documents (handleSubmit reply s))) = ''text'')"
proof (cases "d_user s")
  case None
  then show ?thesis by (simp add: handleSubmit_def alert_def)
next
  case (Some uid)
  show ?thesis
  proof (cases "title s = [] \<or> content s = [] \<or> \<not> supabase_configured s")
    case True
    with Some show ?thesis by (auto simp add: handleSubmit_def alert_def Let_def)
  next
    case False
    with Some show ?thesis
      by (cases reply) (auto simp add: handleSubmit_def alert_def Let_def)
  qed
qed

text \<open>
  C9. The parser returns the lower-cased extension as the type, one of pdf, txt, md, doc
  and docx; \<open>handleFileUpload\<close> keeps the content and the title and drops the type; the
  submit that follows inserts the row with \<open>file_type\<close> \<open>'text'\<close>, and so does every
  submit that inserts a row, whatever was uploaded or typed.
\<close>

theorem upload_stores_text:
  assumes "parseFile file = Inr (c, t)"
    and "d_user s = Some uid" and "supabase_configured s"
    and "strip_extension (file_name file) \<noteq> []"
  shows "t = toLowerCase (after_last_dot (file_name file)) \<and>
         t \<in> set [''pdf'', ''txt'', ''md'', ''doc'', ''docx''] \<and>
         handleFileUpload (Some file) s =
           s\<lparr>title := strip_extension (file_name file), content := c, uploading := False\<rparr> \<and>
         documents_table (handleSubmit (Inserted new_id time) (handleFileUpload (Some file) s)) =
           documents_table s @
             [\<lparr>ins_user_id = uid, ins_title = strip_extension (file_name file),
               ins_content = c, ins_file_type = ''text''\<rparr>] \<and>
         file_type (hd (documents
           (handleSubmit (Inserted new_id time) (handleFileUpload (Some file) s)))) = ''text'' \<and>
         (\<forall>reply s'. \<exists>rows.
            documents_table (handleSubmit reply s') = documents_table s' @ rows \<and>
            (\<forall>r\<in>set rows. ins_file_type r = ''text''))"
proof -
  note tc = parseFile_type [OF assms(1)]
  from tc have t: "t = toLowerCase (after_last_dot (file_name file)) \<and>
    t \<in> set [''pdf'', ''txt'', ''md'', ''doc'', ''docx'']" by blast
  from tc have c: "c \<noteq> []" by blast
  have up: "handleFileUpload (Some file) s =
      s\<lparr>title := strip_extension (file_name file), content := c, uploading := False\<rparr>"
    using assms(1) by (simp add: handleFileUpload_def)
  have sub: "documents_table (handleSubmit (Inserted new_id time) (handleFileUpload (Some file) s)) =
      documents_table s @
        [\<lparr>ins_user_id = uid, ins_title = strip_extension (file_name file),
          ins_content = c, ins_file_type = ''text''\<rparr>]"
    and loc: "file_type (hd (documents
      (handleSubmit (Inserted new_id time) (handleFileUpload (Some file) s)))) = ''text''"
    using assms(2-4) c by (simp_all add: up handleSubmit_def alert_def Let_def)
  have gen: "\<forall>reply s'. \<exists>rows.
      documents_table (handleSubmit reply s') = documents_table s' @ rows \<and>
      (\<forall>r\<in>set rows. ins_file_type r = ''text'')"
    using handleSubmit_rows by blast
  from t up sub loc gen show ?thesis by blast
qed

lemma notes_pdf_facts:
  "parseFile notes_pdf = Inr (''Cells divide.'', ''pdf'') \<and> d_user docs_state = Some ''u1'' \<and>
   supabase_configured docs_state \<and> strip_extension (file_name notes_pdf) = ''Notes'' \<and>
   documents_table docs_state = []"
  by code_simp

theorem upload_stores_text_witness:
  "documents_table (handleSubmit (Inserted ''d2'' ''2024-01-02'')
      (handleFileUpload (Some notes_pdf) docs_state)) =
     [\<lparr>ins_user_id = ''u1'', ins_title = ''Notes'', ins_content = ''Cells divide.'',
       ins_file_type = ''text''\<rparr>]"
proof -
  have h: "parseFile notes_pdf = Inr (''Cells divide.'', ''pdf'')"
    "d_user docs_state = Some ''u1''" "supabase_configured docs_state"
    "strip_extension (file_name notes_pdf) \<noteq> []"
    using notes_pdf_facts by simp_all
  from upload_stores_text [OF h, of "''d2''" "''2024-01-02''"]
  have "documents_table (handleSubmit (Inserted ''d2'' ''2024-01-02'')
      (handleFileUpload (Some notes_pdf) docs_state)) =
    documents_table docs_state @
      [\<lparr>ins_user_id = ''u1'', ins_title = strip_extension (file_name notes_pdf),
        ins_content = ''Cells divide.'', ins_file_type = ''text''\<rparr>]"
    by blast
  then show ?thesis using notes_pdf_facts by simp
qed

section \<open>Chat turns and study sessions\<close>

text \<open>
  C7. A turn that the service answers sends exactly one row to \<open>study_sessions\<close>:
  type \<open>'chat'\<close>, the selected document, \<open>completed\<close> true, one minute and no score,
  whatever the question and the reply are; the transcript grows by the question and the
  reply. A turn that is not answered sends none.
\<close>

theorem chat_turn_session:
  assumes "answered res s" and "c_user s = Some uid" and "selectedDoc s = Some doc"
  shows "chat_sessions (handleSubmit_chat res s) =
           chat_sessions s @
             [\<lparr>user_id = uid, session_type = ''chat'', content_id = cd_id doc, score = None,
               completed = True, duration_minutes = Num 1\<rparr>] \<and>
         length (messages (handleSubmit_chat res s)) = length (messages s) + 2 \<and>
         (\<forall>res' s'. \<not> answered res' s' \<longrightarrow>
            chat_sessions (handleSubmit_chat res' s') = chat_sessions s')"
proof -
  have no: "chat_sessions (handleSubmit_chat res' s') = chat_sessions s'"
    if "\<not> answered res' s'" for res' s'
    using that
    by (auto simp add: handleSubmit_chat_def answered_def say_def Let_def
        split: option.splits fetch_result.splits sum.splits if_splits)
  from assms obtain r data err where r: "res = Response r" "ok r" "json_body r = Inr data"
    "get_prop data ''error'' = Inr err" "\<not> truthy err"
    by (auto simp add: answered_def split: fetch_result.splits sum.splits)
  from r(4) have "data \<noteq> JNull" using get_prop_Inl_iff [of data "''error''"] by auto
  then obtain rv where rv: "get_prop data ''response'' = Inr rv"
    using get_prop_Inl_iff [of data "''response''"] by (cases "get_prop data ''response''") auto
  from assms r rv have "chat_sessions (handleSubmit_chat res s) =
      chat_sessions s @
        [\<lparr>user_id = uid, session_type = ''chat'', content_id = cd_id doc, score = None,
          completed = True, duration_minutes = Num 1\<rparr>]"
    and "length (messages (handleSubmit_chat res s)) = length (messages s) + 2"
    by (simp_all add: handleSubmit_chat_def answered_def say_def Let_def)
  with no show ?thesis by blast
qed

lemma chat_state_facts:
  "answered (Response answer_response) chat_state \<and> c_user chat_state = Some ''u1'' \<and>
   selectedDoc chat_state = Some \<lparr>cd_id = ''d1'', cd_title = ''Notes'', cd_content = ''Cells divide.''\<rparr>
   \<and> chat_sessions chat_state = []"
  by code_simp

theorem chat_turn_session_witness:
  "chat_sessions (handleSubmit_chat (Response answer_response) chat_state) =
     [\<lparr>user_id = ''u1'', session_type = ''chat'', content_id = ''d1'', score = None,
       completed = True, duration_minutes = Num 1\<rparr>]"
  using chat_turn_session [of "Response answer_response" chat_state "''u1''"
      "\<lparr>cd_id = ''d1'', cd_title = ''Notes'', cd_content = ''Cells divide.''\<rparr>"]
    chat_state_facts
  by simp

text \<open>A question of one no-break space is blank: the handler returns at its guard.\<close>

lemma chat_blank_input:
  "\<not> answered (Response answer_response) (chat_state\<lparr>input := [CHR 0xC2, CHR 0xA0]\<rparr>) \<and>
   handleSubmit_chat (Response answer_response) (chat_state\<lparr>input := [CHR 0xC2, CHR 0xA0]\<rparr>)
     = chat_state\<lparr>input := [CHR 0xC2, CHR 0xA0]\<rparr>"
  by code_simp

end
